theory Spec2Isabelle
  imports Main
begin

section \<open>JavaScript strings\<close>

text \<open>
  A JavaScript string is a sequence of UTF-16 code units and \<open>length\<close> counts them.
  The model uses \<^typ>\<open>string\<close>, read as the code units U+0000 to U+00FF: on this
  range \<open>toLowerCase\<close>, \<open>trim\<close> and the regular-expression classes \<open>\\w\<close> and
  \<open>\\s\<close> are the functions below, and none of them leaves the range.
\<close>

definition TAB :: char where "TAB = CHR 0x09"
definition LF :: char where "LF = CHR 0x0A"
definition CR :: char where "CR = CHR 0x0D"

text \<open>\<open>\\s\<close> of a regular expression and the characters \<open>trim\<close> removes: TAB, LF, VT, FF,
  CR, space and the no-break space U+00A0.\<close>

definition isSpaceChar :: "char \<Rightarrow> bool" where
  "isSpaceChar c = ((of_char c :: nat) \<in> {9, 10, 11, 12, 13, 32, 160})"

text \<open>\<open>\\w\<close> without the \<open>u\<close> and \<open>i\<close> flags: \<open>[A-Za-z0-9_]\<close>.\<close>

definition isWordChar :: "char \<Rightarrow> bool" where
  "isWordChar c =
     (let n = (of_char c :: nat)
      in (48 \<le> n \<and> n \<le> 57) \<or> (65 \<le> n \<and> n \<le> 90) \<or> n = 95 \<or> (97 \<le> n \<and> n \<le> 122))"

text \<open>The class \<open>[a-z]\<close>.\<close>

definition isLowerAZ :: "char \<Rightarrow> bool" where
  "isLowerAZ c = (let n = (of_char c :: nat) in 97 \<le> n \<and> n \<le> 122)"

text \<open>\<open>toLowerCase\<close>: \<open>A\<close>-\<open>Z\<close> and the capital letters U+00C0 to U+00DE (all but
  the multiplication sign U+00D7) move up by 32; every other code unit stays.\<close>

definition toLowerChar :: "char \<Rightarrow> char" where
  "toLowerChar c =
     (let n = (of_char c :: nat)
      in if (65 \<le> n \<and> n \<le> 90) \<or> (192 \<le> n \<and> n \<le> 222 \<and> n \<noteq> 215)
         then char_of (n + 32) else c)"

definition toLowerCase :: "string \<Rightarrow> string" where
  "toLowerCase s = map toLowerChar s"

definition trim :: "string \<Rightarrow> string" where
  "trim s = rev (dropWhile isSpaceChar (rev (dropWhile isSpaceChar s)))"

text \<open>\<open>s.includes(' ')\<close>, \<open>s.startsWith('#')\<close>.\<close>

definition includesChar :: "string \<Rightarrow> char \<Rightarrow> bool" where
  "includesChar s c = (c \<in> set s)"

fun startsWith :: "string \<Rightarrow> char \<Rightarrow> bool" where
  "startsWith [] c = False"
| "startsWith (x # xs) c = (x = c)"

text \<open>\<open>/^[a-z]+$/.test(s)\<close>: without the \<open>m\<close> flag \<open>^\<close> and \<open>$\<close> are the two ends
  of the input, so the test asks for at least one character and only \<open>a\<close>-\<open>z\<close>.\<close>

definition testLowerAZ :: "string \<Rightarrow> bool" where
  "testLowerAZ s = (s \<noteq> [] \<and> list_all isLowerAZ s)"

text \<open>\<open>s.split(/\\s+/)\<close>: the string is cut at every maximal run of white space; a run at
  the start or at the end leaves an empty string there, and the empty input gives
  one empty string. The first argument is the piece being read.\<close>

function splitSpaces :: "string \<Rightarrow> string \<Rightarrow> string list" where
  "splitSpaces cur [] = [cur]"
| "splitSpaces cur (c # cs) =
     (if isSpaceChar c then cur # splitSpaces [] (dropWhile isSpaceChar cs)
      else splitSpaces (cur @ [c]) cs)"
  by pat_completeness auto
termination
  by (relation "measure (\<lambda>(cur, s). length s)")
     (auto simp: le_imp_less_Suc length_dropWhile_le)

text \<open>\<open>s.split(d)\<close> for a one-character separator \<open>d\<close>, and \<open>xs.join(d)\<close>.\<close>

fun splitChar :: "char \<Rightarrow> string \<Rightarrow> string \<Rightarrow> string list" where
  "splitChar d cur [] = [cur]"
| "splitChar d cur (c # cs) =
     (if c = d then cur # splitChar d [] cs else splitChar d (cur @ [c]) cs)"

definition split :: "string \<Rightarrow> char \<Rightarrow> string list" where
  "split s d = splitChar d [] s"

fun join :: "string list \<Rightarrow> char \<Rightarrow> string" where
  "join [] d = []"
| "join [x] d = x"
| "join (x # y # ys) d = x @ d # join (y # ys) d"

subsection \<open>Facts about the string functions\<close>

lemma isSpaceChar_toLowerChar: "isSpaceChar (toLowerChar c) = isSpaceChar c"
  by (auto simp: isSpaceChar_def toLowerChar_def Let_def)

lemma toLowerChar_idem: "toLowerChar (toLowerChar c) = toLowerChar c"
  by (auto simp: toLowerChar_def Let_def)

lemma isSpaceChar_space: "isSpaceChar (CHR '' '')"
  by (simp add: isSpaceChar_def)

lemma isWordChar_not_space: "isWordChar c \<Longrightarrow> \<not> isSpaceChar c"
  by (auto simp: isWordChar_def isSpaceChar_def Let_def)

lemma isLowerAZ_toLowerChar: "isLowerAZ c \<Longrightarrow> toLowerChar c = c"
  by (auto simp: isLowerAZ_def toLowerChar_def Let_def)

lemma isLowerAZ_not_space: "isLowerAZ c \<Longrightarrow> \<not> isSpaceChar c"
  by (auto simp: isLowerAZ_def isSpaceChar_def Let_def)

lemma toLowerCase_idem: "toLowerCase (toLowerCase s) = toLowerCase s"
  by (simp add: toLowerCase_def toLowerChar_idem)

lemma dropWhile_space_toLowerCase:
  "dropWhile isSpaceChar (map toLowerChar s) = map toLowerChar (dropWhile isSpaceChar s)"
  by (induction s) (simp_all add: isSpaceChar_toLowerChar)

lemma trim_toLowerCase: "trim (toLowerCase s) = toLowerCase (trim s)"
  by (simp add: trim_def toLowerCase_def dropWhile_space_toLowerCase rev_map)

lemma set_trim: "set (trim s) \<subseteq> set s"
proof -
  have "set (dropWhile isSpaceChar (rev (dropWhile isSpaceChar s)))
          \<subseteq> set (rev (dropWhile isSpaceChar s))"
    by (rule set_dropWhileD [THEN subsetI])
  also have "\<dots> \<subseteq> set s"
    using set_dropWhileD [of _ isSpaceChar s] by auto
  finally show ?thesis by (simp add: trim_def)
qed

lemma trim_no_space: "\<forall>c \<in> set s. \<not> isSpaceChar c \<Longrightarrow> trim s = s"
proof -
  assume a: "\<forall>c \<in> set s. \<not> isSpaceChar c"
  have d: "\<And>xs. \<forall>c \<in> set xs. \<not> isSpaceChar c \<Longrightarrow> dropWhile isSpaceChar xs = xs"
    by (case_tac xs) simp_all
  from a have "dropWhile isSpaceChar s = s" by (rule d)
  moreover from a have "dropWhile isSpaceChar (rev s) = rev s" by (intro d) simp
  ultimately show ?thesis by (simp add: trim_def)
qed

lemma dropWhile_snoc_keep: "\<not> P x \<Longrightarrow> \<exists>zs. dropWhile P (ys @ [x]) = zs @ [x]"
  by (induction ys) auto

lemma trim_idem: "trim (trim s) = trim s"
proof (cases "dropWhile isSpaceChar s")
  case Nil
  show ?thesis unfolding trim_def Nil by simp
next
  case (Cons x xs)
  have nx: "\<not> isSpaceChar x"
    using hd_dropWhile [of isSpaceChar s] Cons by auto
  obtain zs where zs: "dropWhile isSpaceChar (rev xs @ [x]) = zs @ [x]"
    using dropWhile_snoc_keep [of isSpaceChar x "rev xs"] nx by blast
  have r: "rev (dropWhile isSpaceChar s) = rev xs @ [x]"
    unfolding Cons by simp
  have t: "trim s = x # rev zs"
    unfolding trim_def r zs by simp
  have i: "dropWhile isSpaceChar (zs @ [x]) = zs @ [x]"
    using dropWhile_idem [of isSpaceChar "rev xs @ [x]"] unfolding zs .
  have "dropWhile isSpaceChar (x # rev zs) = x # rev zs"
    using nx by simp
  then have "trim (x # rev zs) = rev (dropWhile isSpaceChar (zs @ [x]))"
    unfolding trim_def by simp
  then show ?thesis
    unfolding t i by simp
qed

lemma splitSpaces_chars:
  "w \<in> set (splitSpaces cur s) \<Longrightarrow> set w \<subseteq> set cur \<union> {c \<in> set s. \<not> isSpaceChar c}"
proof (induction cur s rule: splitSpaces.induct)
  case (1 cur)
  then show ?case by simp
next
  case (2 cur c cs)
  show ?case
  proof (cases "isSpaceChar c")
    case True
    with 2 show ?thesis
      using set_dropWhileD [of _ isSpaceChar cs] by (auto split: if_splits)
  next
    case False
    with 2 show ?thesis by auto
  qed
qed

section \<open>The offline classifier (add_cefr_levels_offline.js)\<close>

subsection \<open>The six word sets of getCEFRLevelOffline\<close>

definition a1Words :: "string list" where
  "a1Words =
    [''agree'', ''arrive'', ''august'', ''boat'', ''breakfast'', ''camera'', ''catch'',
     ''duck'', ''enjoy'', ''invite'', ''love'', ''month'', ''travel'', ''visit'',
     ''weather'', ''week'', ''wine'', ''kill'', ''laugh'', ''loud'', ''noise'', ''smell'',
     ''cloud'', ''animal'', ''bus'', ''cat'', ''dog'', ''door'', ''friend'', ''hear'',
     ''help'', ''horse'', ''hospital'', ''leg'', ''open'', ''pull'', ''rabbit'', ''school'',
     ''see'', ''chicken'', ''eat'', ''food'', ''fruit'', ''water'', ''ask'', ''banana'',
     ''bread'', ''cake'', ''carrot'', ''chocolate'', ''always'', ''seven'', ''start'',
     ''together'', ''wear'', ''year'', ''home'', ''family'', ''from'', ''green'', ''red'',
     ''book'', ''clothes'', ''dinner'', ''end'', ''january'', ''december'', ''the'', ''a'',
     ''an'', ''and'', ''or'', ''but'', ''in'', ''on'', ''at'', ''to'', ''for'', ''of'',
     ''with'', ''by'', ''i'', ''you'', ''he'', ''she'', ''it'', ''we'', ''they'', ''my'',
     ''your'', ''his'', ''her'', ''its'', ''our'', ''their'', ''this'', ''that'', ''these'',
     ''those'', ''here'', ''there'', ''where'', ''when'', ''what'', ''who'', ''how'',
     ''why'', ''yes'', ''no'', ''not'', ''good'', ''bad'', ''big'', ''small'', ''new'',
     ''old'', ''hot'', ''cold'', ''long'', ''short'', ''like'', ''want'', ''need'',
     ''have'', ''get'', ''go'', ''come'', ''look'', ''drink'', ''work'', ''time'', ''day'']"

definition a2Words :: "string list" where
  "a2Words =
    [''capital'', ''typical'', ''adventure'', ''approach'', ''carefully'', ''create'',
     ''project'', ''scare'', ''secret'', ''shout'', ''terrible'', ''worse'', ''among'',
     ''chart'', ''describe'', ''ever'', ''fail'', ''grade'', ''instead'', ''library'',
     ''photograph'', ''several'', ''solve'', ''suddenly'', ''suppose'', ''understand'',
     ''view'', ''appropriate'', ''avoid'', ''behave'', ''calm'', ''concern'', ''content'',
     ''expect'', ''frequently'', ''habit'', ''instruct'', ''issue'', ''none'', ''patient'',
     ''positive'', ''punish'', ''represent'', ''shake'', ''spread'', ''stroll'',
     ''village'', ''active'', ''adult'', ''age'', ''balance'', ''bike'', ''choose'',
     ''doctor'', ''during'', ''football'', ''fun'', ''game'', ''heart'', ''golf'',
     ''increase'', ''life'', ''often'', ''plenty'', ''weight'', ''apartment'', ''article'',
     ''artist'', ''attitude'', ''beauty'', ''compare'', ''judge'', ''magazine'',
     ''material'', ''meal'', ''method'', ''neighbor'', ''profit'', ''quality'', ''space'',
     ''stair'', ''symbol'', ''thin'', ''community'', ''university'', ''celebrate'',
     ''decide'', ''disappear'', ''else'', ''fair'', ''flow'', ''forward'', ''hill'',
     ''level'', ''lone'', ''puddle'', ''response'', ''season'', ''solution'', ''waste'',
     ''whether'', ''great'', ''health'', ''recipe'', ''restaurant'', ''special'', ''alive'',
     ''bone'', ''bother'', ''captain'', ''conclusion'', ''doubt'', ''explore'', ''glad'',
     ''however'', ''mention'', ''social'', ''speech'', ''staff'', ''toward'', ''wood'',
     ''achieve'', ''advise'', ''already'', ''basic'', ''bit'', ''consider'', ''destroy'',
     ''entertain'', ''extra'', ''goal'', ''lie'', ''meat'', ''opinion'', ''real'',
     ''reflect'', ''regard'', ''serve'', ''vegetable'', ''war'', ''worth'', ''about'',
     ''after'', ''again'', ''all'', ''also'', ''different'', ''each'', ''early'', ''every'',
     ''first'', ''important'', ''large'', ''last'', ''late'', ''little'', ''live'',
     ''make'', ''many'', ''most'', ''much'', ''never'', ''next'', ''only'', ''other'',
     ''own'', ''place'', ''right'', ''same'', ''some'', ''still'', ''such'', ''take'',
     ''than'', ''them'', ''think'', ''through'', ''very'', ''way'', ''well'', ''while'',
     ''world'', ''write'', ''young'']"

definition b1Words :: "string list" where
  "b1Words =
    [''alcohol'', ''chemical'', ''evil'', ''experiment'', ''laboratory'', ''nervous'',
     ''alien'', ''planet'', ''report'', ''shape'', ''command'', ''depend'', ''medical'',
     ''service'', ''benefit'', ''certain'', ''chance'', ''effect'', ''essential'',
     ''focus'', ''function'', ''grass'', ''guard'', ''image'', ''immediate'', ''primary'',
     ''proud'', ''remain'', ''rest'', ''separate'', ''site'', ''tail'', ''trouble'',
     ''advertise'', ''aware'', ''battery'', ''black'', ''city'', ''clean'', ''country'',
     ''develop'', ''electric'', ''eventually'', ''fact'', ''glass'', ''history'',
     ''nature'', ''people'', ''plastic'', ''problem'', ''street'', ''alone'',
     ''professional'', ''appeal'', ''assume'', ''borrow'', ''client'', ''downtown'',
     ''dull'', ''embarrass'', ''fare'', ''former'', ''found'', ''invest'', ''loan'',
     ''practical'', ''quarter'', ''salary'', ''scholarship'', ''temporary'', ''treasure'',
     ''urge'', ''coach'', ''control'', ''description'', ''direct'', ''exam'', ''example'',
     ''limit'', ''local'', ''magical'', ''mail'', ''novel'', ''outline'', ''poet'',
     ''print'', ''scene'', ''sheet'', ''silly'', ''store'', ''suffer'', ''technology'',
     ''across'', ''breathe'', ''characteristic'', ''consume'', ''excite'', ''extremely'',
     ''fear'', ''fortunate'', ''happen'', ''length'', ''mistake'', ''observe'',
     ''opportunity'', ''prize'', ''race'', ''realize'', ''respond'', ''risk'', ''wonder'',
     ''yet'', ''art'', ''contain'', ''delicious'', ''diet'', ''accounting'', ''injustice'',
     ''international'', ''lawyer'', ''policy'']"

definition b2Words :: "string list" where
  "b2Words =
    [''apart'', ''attribute'', ''bilingual'', ''completely'', ''dash'', ''disgust'',
     ''fashionable'', ''foreign'', ''gulf'', ''mirror'', ''natural'', ''nowadays'',
     ''participant'', ''ritual'', ''spoken'', ''sport'', ''surprised'', ''tense'',
     ''totally'', ''vague'', ''allow'', ''announce'', ''beside'', ''challenge'', ''claim'',
     ''condition'', ''contribute'', ''difference'', ''divide'', ''expert'', ''famous'',
     ''force'', ''harm'', ''lay'', ''peace'', ''prince'', ''protect'', ''sense'',
     ''sudden'', ''therefore'', ''accept'', ''arrange'', ''attend'', ''chase'',
     ''contrast'', ''encourage'', ''familiar'', ''grab'', ''hang'', ''huge'', ''necessary'',
     ''pattern'', ''propose'', ''purpose'', ''release'', ''require'', ''satisfied'',
     ''single'', ''tear'', ''theory'', ''advance'', ''athlete'', ''average'', ''behavior'',
     ''behind'', ''course'', ''lower'', ''match'', ''member'', ''mental'', ''passenger'',
     ''personality'', ''poem'', ''pole'', ''remove'', ''safety'', ''shoot'', ''sound'',
     ''swim'', ''web'', ''block'', ''bury'', ''cheer'', ''complex'', ''critic'',
     ''direction'', ''event'', ''exercise'', ''friendship'', ''guide'', ''lack'',
     ''perform'', ''bright'', ''actual'', ''amaze'', ''charge'', ''comfort'', ''contact'',
     ''customer'', ''deliver'', ''earn'', ''gate'', ''include'', ''manage'', ''mystery'',
     ''occur'', ''opposite'', ''plate'', ''receive'', ''reward'', ''set'', ''steal'',
     ''thief'']"

definition c1Words :: "string list" where
  "c1Words =
    [''exchange'', ''appear'', ''base'', ''brain'', ''career'', ''clerk'', ''effort'',
     ''enter'', ''excellent'', ''hero'', ''hurry'', ''inform'', ''later'', ''leave'',
     ''locate'', ''nurse'', ''operation'', ''pain'', ''refuse'', ''though'', ''various'']"

definition c2Words :: "string list" where
  "c2Words =
    [''sophisticated'', ''unprecedented'', ''manifestation'', ''contemporary'',
     ''ambiguous'']"

subsection \<open>getCEFRLevelOffline and analyzePhrase\<close>

text \<open>The last branch of \<open>getCEFRLevelOffline\<close> (lines 135 to 145): the level of a word
  that is in none of the sets, from its length.\<close>

definition heuristicLevel :: "string \<Rightarrow> string" where
  "heuristicLevel text =
     (if length text \<le> 4 \<and> testLowerAZ text then ''A1''
      else if length text \<le> 6 then ''A2''
      else if length text \<le> 8 then ''B1''
      else if length text \<le> 10 then ''B2''
      else ''C1'')"

text \<open>The chain of membership tests of \<open>getCEFRLevelOffline\<close> (lines 121 to 146), on the
  text already lower-cased and trimmed.\<close>

definition lookupLevel :: "string \<Rightarrow> string" where
  "lookupLevel text =
     (if text \<in> set a1Words then ''A1''
      else if text \<in> set a2Words then ''A2''
      else if text \<in> set b1Words then ''B1''
      else if text \<in> set b2Words then ''B2''
      else if text \<in> set c1Words then ''C1''
      else if text \<in> set c2Words then ''C2''
      else heuristicLevel text)"

text \<open>The words of a phrase (lines 156 to 160 of \<open>analyzePhrase\<close>).\<close>

definition phraseWords :: "string \<Rightarrow> string list" where
  "phraseWords phrase =
     filter (\<lambda>word. length word > 0)
       (splitSpaces [] (filter (\<lambda>c. isWordChar c \<or> isSpaceChar c) (toLowerCase phrase)))"

definition levelValues :: "(string \<times> nat) list" where
  "levelValues = [(''A1'', 1), (''A2'', 2), (''B1'', 3), (''B2'', 4), (''C1'', 5), (''C2'', 6)]"

definition levelNames :: "string list" where
  "levelNames = ['''', ''A1'', ''A2'', ''B1'', ''B2'', ''C1'', ''C2'']"

text \<open>\<open>levelValues[level] || 1\<close>: a missing key and the value 0 both give 1. The
  levels looked up are results of \<open>getCEFRLevelOffline\<close>, always among the six keys.\<close>

definition levelValueOr1 :: "string \<Rightarrow> nat" where
  "levelValueOr1 level =
     (case map_of levelValues level of None \<Rightarrow> 1 | Some v \<Rightarrow> if v = 0 then 1 else v)"

text \<open>\<open>Math.max(...xs)\<close>; of no argument it is minus infinity, here \<open>None\<close>.\<close>

fun mathMax :: "nat list \<Rightarrow> nat option" where
  "mathMax [] = None"
| "mathMax (x # xs) = Some (fold max xs x)"

text \<open>\<open>levelNames[maxLevel]\<close>; outside the array JavaScript gives \<open>undefined\<close>, written
  here as the string it prints as.\<close>

definition levelNameAt :: "nat option \<Rightarrow> string" where
  "levelNameAt maxLevel =
     (case maxLevel of
        None \<Rightarrow> ''undefined''
      | Some i \<Rightarrow> if i < length levelNames then levelNames ! i else ''undefined'')"

lemma phraseWords_chars:
  assumes "w \<in> set (phraseWords phrase)"
  shows "w \<noteq> []" and "\<forall>c \<in> set w. isWordChar c \<and> toLowerChar c = c"
proof -
  let ?s = "filter (\<lambda>c. isWordChar c \<or> isSpaceChar c) (toLowerCase phrase)"
  from assms have w: "w \<in> set (splitSpaces [] ?s)" and "w \<noteq> []"
    by (auto simp: phraseWords_def)
  then show "w \<noteq> []" by simp
  from splitSpaces_chars [OF w]
  have "set w \<subseteq> {c \<in> set ?s. \<not> isSpaceChar c}" by simp
  then show "\<forall>c \<in> set w. isWordChar c \<and> toLowerChar c = c"
    by (auto simp: toLowerCase_def toLowerChar_idem)
qed

lemma phraseWords_normal:
  assumes "w \<in> set (phraseWords phrase)"
  shows "trim (toLowerCase w) = w"
proof -
  from phraseWords_chars(2) [OF assms]
  have l: "toLowerCase w = w" and n: "\<forall>c \<in> set w. \<not> isSpaceChar c"
    by (auto simp: toLowerCase_def map_idI isWordChar_not_space)
  show ?thesis unfolding l by (rule trim_no_space [OF n])
qed

lemma phraseWords_no_space:
  assumes "w \<in> set (phraseWords phrase)"
  shows "\<not> includesChar w (CHR '' '')"
  using phraseWords_chars(2) [OF assms] isWordChar_not_space isSpaceChar_space
  by (auto simp: includesChar_def)

text \<open>\<open>getCEFRLevelOffline\<close> (lines 14 to 147) and \<open>analyzePhrase\<close> (lines 154 to 180) call
  each other: a text that still holds a space after lower-casing and trimming goes to
  \<open>analyzePhrase\<close>, which classifies each of its words with \<open>getCEFRLevelOffline\<close>.
  The words hold no space, so the recursion ends there.\<close>

function getCEFRLevelOffline :: "string \<Rightarrow> string"
  and analyzePhrase :: "string \<Rightarrow> string" where
  "getCEFRLevelOffline text0 =
     (let text = trim (toLowerCase text0)
      in if includesChar text (CHR '' '') then analyzePhrase text
         else lookupLevel text)"
| "analyzePhrase phrase =
     (let words = phraseWords phrase
      in if length words = 0 then ''A1''
         else let levels = map getCEFRLevelOffline words;
                  maxLevel = mathMax (map levelValueOr1 levels)
              in levelNameAt maxLevel)"
  by pat_completeness auto
termination
proof (relation "measure (\<lambda>x. case x of
          Inl text0 \<Rightarrow> if includesChar (trim (toLowerCase text0)) (CHR '' '') then 2 else 0
        | Inr phrase \<Rightarrow> 1)")
  show "wf (measure (\<lambda>x. case x of
          Inl text0 \<Rightarrow> if includesChar (trim (toLowerCase text0)) (CHR '' '') then 2 else 0
        | Inr phrase \<Rightarrow> (1::nat)))" by simp
next
  fix text0 x
  assume "x = trim (toLowerCase text0)" "includesChar x (CHR '' '')"
  then show "(Inr x, Inl text0) \<in> measure (\<lambda>x. case x of
          Inl text0 \<Rightarrow> if includesChar (trim (toLowerCase text0)) (CHR '' '') then 2 else 0
        | Inr phrase \<Rightarrow> 1)"
    by simp
next
  fix phrase x xa
  assume "x = phraseWords phrase" "length x \<noteq> 0" "xa \<in> set x"
  then have "xa \<in> set (phraseWords phrase)" by simp
  from phraseWords_normal [OF this] phraseWords_no_space [OF this]
  show "(Inl xa, Inr phrase) \<in> measure (\<lambda>x. case x of
          Inl text0 \<Rightarrow> if includesChar (trim (toLowerCase text0)) (CHR '' '') then 2 else 0
        | Inr phrase \<Rightarrow> 1)"
    by simp
qed

declare getCEFRLevelOffline.simps [simp del] analyzePhrase.simps [simp del]

section \<open>The classifier with remote lookup (add_cefr_levels.js)\<close>

subsection \<open>The six word sets of getBasicCEFRLevel\<close>

definition a1Words_basic :: "string list" where
  "a1Words_basic =
    [''agree'', ''arrive'', ''august'', ''boat'', ''breakfast'', ''camera'', ''catch'',
     ''duck'', ''enjoy'', ''invite'', ''love'', ''month'', ''travel'', ''visit'',
     ''weather'', ''week'', ''wine'', ''kill'', ''laugh'', ''loud'', ''noise'', ''smell'',
     ''cloud'', ''animal'', ''bus'', ''cat'', ''dog'', ''door'', ''friend'', ''hear'',
     ''help'', ''horse'', ''hospital'', ''leg'', ''open'', ''pull'', ''rabbit'', ''school'',
     ''see'', ''chicken'', ''eat'', ''food'', ''fruit'', ''water'', ''ask'', ''banana'',
     ''bread'', ''cake'', ''carrot'', ''chocolate'', ''always'', ''seven'', ''start'',
     ''together'', ''wear'', ''year'', ''home'', ''family'', ''from'', ''green'', ''red'',
     ''book'', ''clothes'', ''dinner'', ''end'', ''january'', ''december'', ''the'', ''a'',
     ''an'', ''and'', ''or'', ''but'', ''in'', ''on'', ''at'', ''to'', ''for'', ''of'',
     ''with'', ''by'', ''i'', ''you'', ''he'', ''she'', ''it'', ''we'', ''they'', ''my'',
     ''your'', ''his'', ''her'', ''its'', ''our'', ''their'', ''this'', ''that'', ''these'',
     ''those'', ''here'', ''there'', ''where'', ''when'', ''what'', ''who'', ''how'',
     ''why'', ''yes'', ''no'', ''not'', ''good'', ''bad'', ''big'', ''small'', ''new'',
     ''old'', ''hot'', ''cold'', ''long'', ''short'', ''like'', ''want'', ''need'',
     ''have'', ''get'', ''go'', ''come'', ''look'', ''drink'', ''work'', ''time'', ''day'']"

definition a2Words_basic :: "string list" where
  "a2Words_basic =
    [''capital'', ''typical'', ''adventure'', ''approach'', ''carefully'', ''create'',
     ''project'', ''scare'', ''secret'', ''shout'', ''terrible'', ''worse'', ''among'',
     ''chart'', ''describe'', ''ever'', ''fail'', ''grade'', ''instead'', ''library'',
     ''photograph'', ''several'', ''solve'', ''suddenly'', ''suppose'', ''understand'',
     ''view'', ''appropriate'', ''avoid'', ''behave'', ''calm'', ''concern'', ''content'',
     ''expect'', ''frequently'', ''habit'', ''instruct'', ''issue'', ''none'', ''patient'',
     ''positive'', ''punish'', ''represent'', ''shake'', ''spread'', ''stroll'',
     ''village'', ''active'', ''adult'', ''age'', ''balance'', ''bike'', ''choose'',
     ''doctor'', ''during'', ''football'', ''fun'', ''game'', ''heart'', ''golf'',
     ''increase'', ''life'', ''often'', ''plenty'', ''weight'', ''apartment'', ''article'',
     ''artist'', ''attitude'', ''beauty'', ''compare'', ''judge'', ''magazine'',
     ''material'', ''meal'', ''method'', ''neighbor'', ''profit'', ''quality'', ''space'',
     ''stair'', ''symbol'', ''thin'', ''community'', ''university'', ''celebrate'',
     ''decide'', ''disappear'', ''else'', ''fair'', ''flow'', ''forward'', ''hill'',
     ''level'', ''lone'', ''puddle'', ''response'', ''season'', ''solution'', ''waste'',
     ''whether'', ''great'', ''health'', ''recipe'', ''restaurant'', ''special'', ''alive'',
     ''bone'', ''bother'', ''captain'', ''conclusion'', ''doubt'', ''explore'', ''glad'',
     ''however'', ''mention'', ''social'', ''speech'', ''staff'', ''toward'', ''wood'',
     ''achieve'', ''advise'', ''already'', ''basic'', ''bit'', ''consider'', ''destroy'',
     ''entertain'', ''extra'', ''goal'', ''lie'', ''meat'', ''opinion'', ''real'',
     ''reflect'', ''regard'', ''serve'', ''vegetable'', ''war'', ''worth'', ''about'',
     ''after'', ''again'', ''all'', ''also'', ''different'', ''each'', ''early'', ''every'',
     ''first'', ''important'', ''large'', ''last'', ''late'', ''little'', ''live'',
     ''make'', ''many'', ''most'', ''much'', ''never'', ''next'', ''only'', ''other'',
     ''own'', ''place'', ''right'', ''same'', ''some'', ''still'', ''such'', ''take'',
     ''than'', ''them'', ''think'', ''through'', ''very'', ''way'', ''well'', ''while'',
     ''world'', ''write'', ''young'']"

definition b1Words_basic :: "string list" where
  "b1Words_basic =
    [''alcohol'', ''chemical'', ''evil'', ''experiment'', ''laboratory'', ''nervous'',
     ''alien'', ''planet'', ''report'', ''shape'', ''command'', ''depend'', ''medical'',
     ''service'', ''benefit'', ''certain'', ''chance'', ''effect'', ''essential'',
     ''focus'', ''function'', ''grass'', ''guard'', ''image'', ''immediate'', ''primary'',
     ''proud'', ''remain'', ''rest'', ''separate'', ''site'', ''tail'', ''trouble'',
     ''advertise'', ''aware'', ''battery'', ''black'', ''city'', ''clean'', ''country'',
     ''develop'', ''electric'', ''eventually'', ''fact'', ''glass'', ''history'',
     ''nature'', ''people'', ''plastic'', ''problem'', ''street'', ''alone'',
     ''professional'', ''appeal'', ''assume'', ''borrow'', ''client'', ''downtown'',
     ''dull'', ''embarrass'', ''fare'', ''former'', ''found'', ''invest'', ''loan'',
     ''practical'', ''quarter'', ''salary'', ''scholarship'', ''temporary'', ''treasure'',
     ''urge'', ''coach'', ''control'', ''description'', ''direct'', ''exam'', ''example'',
     ''limit'', ''local'', ''magical'', ''mail'', ''novel'', ''outline'', ''poet'',
     ''print'', ''scene'', ''sheet'', ''silly'', ''store'', ''suffer'', ''technology'',
     ''across'', ''breathe'', ''characteristic'', ''consume'', ''excite'', ''extremely'',
     ''fear'', ''fortunate'', ''happen'', ''length'', ''mistake'', ''observe'',
     ''opportunity'', ''prize'', ''race'', ''realize'', ''respond'', ''risk'', ''wonder'',
     ''yet'', ''art'', ''contain'', ''delicious'', ''diet'', ''accounting'', ''injustice'',
     ''international'', ''lawyer'', ''policy'']"

definition b2Words_basic :: "string list" where
  "b2Words_basic =
    [''apart'', ''attribute'', ''bilingual'', ''completely'', ''dash'', ''disgust'',
     ''fashionable'', ''foreign'', ''gulf'', ''mirror'', ''natural'', ''nowadays'',
     ''participant'', ''ritual'', ''spoken'', ''sport'', ''surprised'', ''tense'',
     ''totally'', ''vague'', ''allow'', ''announce'', ''beside'', ''challenge'', ''claim'',
     ''condition'', ''contribute'', ''difference'', ''divide'', ''expert'', ''famous'',
     ''force'', ''harm'', ''lay'', ''peace'', ''prince'', ''protect'', ''sense'',
     ''sudden'', ''therefore'', ''accept'', ''arrange'', ''attend'', ''chase'',
     ''contrast'', ''encourage'', ''familiar'', ''grab'', ''hang'', ''huge'', ''necessary'',
     ''pattern'', ''propose'', ''purpose'', ''release'', ''require'', ''satisfied'',
     ''single'', ''tear'', ''theory'', ''advance'', ''athlete'', ''average'', ''behavior'',
     ''behind'', ''course'', ''lower'', ''match'', ''member'', ''mental'', ''passenger'',
     ''personality'', ''poem'', ''pole'', ''remove'', ''safety'', ''shoot'', ''sound'',
     ''swim'', ''web'', ''block'', ''bury'', ''cheer'', ''complex'', ''critic'',
     ''direction'', ''event'', ''exercise'', ''friendship'', ''guide'', ''lack'',
     ''perform'', ''bright'', ''actual'', ''amaze'', ''charge'', ''comfort'', ''contact'',
     ''customer'', ''deliver'', ''earn'', ''gate'', ''include'', ''manage'', ''mystery'',
     ''occur'', ''opposite'', ''plate'', ''receive'', ''reward'', ''set'', ''steal'',
     ''thief'']"

definition c1Words_basic :: "string list" where
  "c1Words_basic =
    [''exchange'', ''appear'', ''base'', ''brain'', ''career'', ''clerk'', ''effort'',
     ''enter'', ''excellent'', ''hero'', ''hurry'', ''inform'', ''later'', ''leave'',
     ''locate'', ''nurse'', ''operation'', ''pain'', ''refuse'', ''though'', ''various'']"

definition c2Words_basic :: "string list" where
  "c2Words_basic =
    [''sophisticated'', ''unprecedented'', ''manifestation'', ''contemporary'',
     ''ambiguous'']"

subsection \<open>getBasicCEFRLevel and its analyzePhrase\<close>

text \<open>The last branch of \<open>getBasicCEFRLevel\<close> (lines 239 to 249).\<close>

definition heuristicLevel_basic :: "string \<Rightarrow> string" where
  "heuristicLevel_basic text =
     (if length text \<le> 4 \<and> testLowerAZ text then ''A1''
      else if length text \<le> 6 then ''A2''
      else if length text \<le> 8 then ''B1''
      else if length text \<le> 10 then ''B2''
      else ''C1'')"

text \<open>The chain of membership tests of \<open>getBasicCEFRLevel\<close> (lines 225 to 250).\<close>

definition lookupLevel_basic :: "string \<Rightarrow> string" where
  "lookupLevel_basic text =
     (if text \<in> set a1Words_basic then ''A1''
      else if text \<in> set a2Words_basic then ''A2''
      else if text \<in> set b1Words_basic then ''B1''
      else if text \<in> set b2Words_basic then ''B2''
      else if text \<in> set c1Words_basic then ''C1''
      else if text \<in> set c2Words_basic then ''C2''
      else heuristicLevel_basic text)"

text \<open>The words of a phrase (lines 260 to 264 of this file's \<open>analyzePhrase\<close>).\<close>

definition phraseWords_basic :: "string \<Rightarrow> string list" where
  "phraseWords_basic phrase =
     filter (\<lambda>word. length word > 0)
       (splitSpaces [] (filter (\<lambda>c. isWordChar c \<or> isSpaceChar c) (toLowerCase phrase)))"

definition levelValues_basic :: "(string \<times> nat) list" where
  "levelValues_basic =
     [(''A1'', 1), (''A2'', 2), (''B1'', 3), (''B2'', 4), (''C1'', 5), (''C2'', 6)]"

definition levelNames_basic :: "string list" where
  "levelNames_basic = ['''', ''A1'', ''A2'', ''B1'', ''B2'', ''C1'', ''C2'']"

definition levelValueOr1_basic :: "string \<Rightarrow> nat" where
  "levelValueOr1_basic level =
     (case map_of levelValues_basic level of None \<Rightarrow> 1 | Some v \<Rightarrow> if v = 0 then 1 else v)"

definition levelNameAt_basic :: "nat option \<Rightarrow> string" where
  "levelNameAt_basic maxLevel =
     (case maxLevel of
        None \<Rightarrow> ''undefined''
      | Some i \<Rightarrow> if i < length levelNames_basic then levelNames_basic ! i else ''undefined'')"

lemma phraseWords_basic_eq: "phraseWords_basic = phraseWords"
  by (rule ext) (simp add: phraseWords_basic_def phraseWords_def)

text \<open>\<open>getBasicCEFRLevel\<close> (lines 118 to 251) and \<open>analyzePhrase\<close> (lines 258 to 284) of
  add_cefr_levels.js, mutually recursive as in the offline file.\<close>

function getBasicCEFRLevel :: "string \<Rightarrow> string"
  and analyzePhrase_basic :: "string \<Rightarrow> string" where
  "getBasicCEFRLevel text0 =
     (let text = trim (toLowerCase text0)
      in if includesChar text (CHR '' '') then analyzePhrase_basic text
         else lookupLevel_basic text)"
| "analyzePhrase_basic phrase =
     (let words = phraseWords_basic phrase
      in if length words = 0 then ''A1''
         else let levels = map getBasicCEFRLevel words;
                  maxLevel = mathMax (map levelValueOr1_basic levels)
              in levelNameAt_basic maxLevel)"
  by pat_completeness auto
termination
proof (relation "measure (\<lambda>x. case x of
          Inl text0 \<Rightarrow> if includesChar (trim (toLowerCase text0)) (CHR '' '') then 2 else 0
        | Inr phrase \<Rightarrow> 1)")
  show "wf (measure (\<lambda>x. case x of
          Inl text0 \<Rightarrow> if includesChar (trim (toLowerCase text0)) (CHR '' '') then 2 else 0
        | Inr phrase \<Rightarrow> (1::nat)))" by simp
next
  fix text0 x
  assume "x = trim (toLowerCase text0)" "includesChar x (CHR '' '')"
  then show "(Inr x, Inl text0) \<in> measure (\<lambda>x. case x of
          Inl text0 \<Rightarrow> if includesChar (trim (toLowerCase text0)) (CHR '' '') then 2 else 0
        | Inr phrase \<Rightarrow> 1)"
    by simp
next
  fix phrase x xa
  assume "x = phraseWords_basic phrase" "length x \<noteq> 0" "xa \<in> set x"
  then have "xa \<in> set (phraseWords phrase)" by (simp add: phraseWords_basic_eq)
  from phraseWords_normal [OF this] phraseWords_no_space [OF this]
  show "(Inl xa, Inr phrase) \<in> measure (\<lambda>x. case x of
          Inl text0 \<Rightarrow> if includesChar (trim (toLowerCase text0)) (CHR '' '') then 2 else 0
        | Inr phrase \<Rightarrow> 1)"
    by simp
qed

declare getBasicCEFRLevel.simps [simp del] analyzePhrase_basic.simps [simp del]

subsection \<open>The remote lookup: queryAPI and getCEFRLevel\<close>

text \<open>The value \<open>JSON.parse\<close> gives. Of a number only whether it is zero matters here.
  A property read that finds nothing gives \<open>undefined\<close>, here \<open>None\<close>.\<close>

datatype json =
    JNull
  | JBool bool
  | JNumber int
  | JString string
  | JArray "json list"
  | JObject "(string \<times> json) list"

text \<open>Whether a value counts as true in a condition.\<close>

fun truthy :: "json option \<Rightarrow> bool" where
  "truthy None = False"
| "truthy (Some JNull) = False"
| "truthy (Some (JBool b)) = b"
| "truthy (Some (JNumber n)) = (n \<noteq> 0)"
| "truthy (Some (JString s)) = (s \<noteq> [])"
| "truthy (Some (JArray xs)) = True"
| "truthy (Some (JObject kvs)) = True"

text \<open>\<open>v.k\<close> for the keys \<open>word\<close> and \<open>level\<close>, which only a parsed object can hold; the last
  of several equal keys in the text is the one \<open>JSON.parse\<close> keeps. The code reads a
  property only of a value it has found true, so never of \<open>null\<close> or \<open>undefined\<close>.\<close>

fun propertyOf :: "json option \<Rightarrow> string \<Rightarrow> json option" where
  "propertyOf (Some (JObject kvs)) k = map_of (rev kvs) k"
| "propertyOf v k = None"

text \<open>What one request comes to: an \<open>error\<close> event, the 5000 ms timeout, or a complete
  body, which \<open>JSON.parse\<close> either rejects (\<open>None\<close>) or turns into a value.\<close>

datatype response = RequestError | RequestTimeout | Body "json option"





section \<open>The annotator (processTSVFileOffline)\<close>

text \<open>\<open>line.replace(/\\r?\\n$/, '')\<close> (line 200): a line feed at the very end of the
  string is removed, together with a carriage return just before it.\<close>

definition stripTerminator :: "string \<Rightarrow> string" where
  "stripTerminator s =
     (if s \<noteq> [] \<and> last s = LF
      then (let r = butlast s in if r \<noteq> [] \<and> last r = CR then butlast r else r)
      else s)"

text \<open>The body of the loop (lines 200 to 236): the line pushed to \<open>processedLines\<close> for
  the element \<open>l\<close> of \<open>lines\<close>.\<close>

definition processLine :: "string \<Rightarrow> string" where
  "processLine l =
     (let line = stripTerminator l
      in if startsWith line (CHR ''#'') \<or> trim line = [] then line
         else let columns = split line TAB
              in if length columns \<ge> 12
                 then (let text = trim (columns ! 3);
                           columns =
                             (if text \<noteq> []
                              then (let cefrLevel = getCEFRLevelOffline text
                                    in if trim (columns ! 11) \<noteq> []
                                       then columns[11 := columns ! 11 @ '' '' @ cefrLevel]
                                       else columns[11 := cefrLevel])
                              else columns)
                       in join columns TAB)
                 else line)"

text \<open>The loop over \<open>lines\<close> (lines 199 to 237), with \<open>processedLines\<close> as it grows.\<close>

fun processLines :: "string list \<Rightarrow> string list \<Rightarrow> string list" where
  "processLines [] processedLines = processedLines"
| "processLines (l # lines) processedLines = processLines lines (processedLines @ [processLine l])"

text \<open>\<open>processTSVFileOffline\<close> (lines 187 to 251) on the contents of the input file:
  the text written to the output file. \<open>None\<close> as input is a read that fails; the
  \<open>catch\<close> then ends the process with status 1 and nothing is written, \<open>None\<close>.\<close>

definition processTSVFileOffline :: "string option \<Rightarrow> string option" where
  "processTSVFileOffline input =
     (case input of
        None \<Rightarrow> None
      | Some data \<Rightarrow> Some (join (processLines (split data LF) []) LF))"

text \<open>A line of twelve fields, for the examples: the word to classify in field 3 and the
  tags in field 11.\<close>

definition fields12 :: "string \<Rightarrow> string \<Rightarrow> string" where
  "fields12 word tags =
     join [''deck'', ''id'', ''uid'', word, ''noun'', '''', ''ipa'', '''', ''meaning'', ''one'',
           ''two'', tags] TAB"

section \<open>The vocabulary of the claims\<close>

text \<open>The levels in ascending order, and the place of a level in that order.\<close>

definition levels :: "string list" where
  "levels = [''A1'', ''A2'', ''B1'', ''B2'', ''C1'', ''C2'']"

definition levelOrder :: "string \<Rightarrow> nat" where
  "levelOrder l = length (takeWhile (\<lambda>x. x \<noteq> l) levels)"

text \<open>The six word sets with their levels, in the order in which the classifier tests
  them.\<close>

definition tiers :: "(string \<times> string list) list" where
  "tiers = [(''A1'', a1Words), (''A2'', a2Words), (''B1'', b1Words), (''B2'', b2Words),
            (''C1'', c1Words), (''C2'', c2Words)]"

text \<open>A word made of lowercase Latin letters only: at least one letter, and every
  character one of \<open>a\<close> to \<open>z\<close>.\<close>

definition lowercaseLetters :: "string \<Rightarrow> bool" where
  "lowercaseLetters s = (s \<noteq> [] \<and> set s \<subseteq> set ''abcdefghijklmnopqrstuvwxyz'')"

text \<open>A level string: a string that is not empty.\<close>

fun levelString :: "json option \<Rightarrow> bool" where
  "levelString (Some (JString s)) = (s \<noteq> [])"
| "levelString v = False"

text \<open>A request that brings no level string: an error, the timeout, a body that does not
  parse, or a parsed body whose \<open>word.level\<close> is not a level string and whose \<open>level\<close> is
  not one either or is out of reach, because \<open>word.level\<close> is a number, \<open>true\<close>, an array
  or an object that counts as true. A body with a level string at neither place is of
  this kind, whatever else it holds.\<close>

fun unavailable :: "response \<Rightarrow> bool" where
  "unavailable RequestError = True"
| "unavailable RequestTimeout = True"
| "unavailable (Body None) = True"
| "unavailable (Body (Some r)) =
     (\<not> levelString (propertyOf (propertyOf (Some r) ''word'') ''level'')
      \<and> (truthy (propertyOf (propertyOf (Some r) ''word'') ''level'')
           \<or> \<not> levelString (propertyOf (Some r) ''level'')))"

section \<open>Facts about the classifier and the annotator\<close>

subsection \<open>Levels and the maximum of a phrase\<close>

lemma levels_cases:
  "l \<in> set levels \<longleftrightarrow> l = ''A1'' \<or> l = ''A2'' \<or> l = ''B1'' \<or> l = ''B2'' \<or> l = ''C1'' \<or> l = ''C2''"
  by (auto simp: levels_def)

lemma heuristicLevel_level: "heuristicLevel t \<in> set levels"
  by (simp add: heuristicLevel_def levels_def)

lemma lookupLevel_level: "lookupLevel t \<in> set levels"
  using heuristicLevel_level [of t] by (simp add: lookupLevel_def levels_def)

lemma levelValueOr1_order:
  "l \<in> set levels \<Longrightarrow> levelValueOr1 l = Suc (levelOrder l)"
  by (auto simp: levels_cases levelValueOr1_def levelValues_def levelOrder_def levels_def)

lemma levelNameAt_value:
  "l \<in> set levels \<Longrightarrow> levelNameAt (Some (levelValueOr1 l)) = l"
  by (auto simp: levels_cases levelValueOr1_def levelValues_def levelNameAt_def levelNames_def)

lemma mathMax_Max:
  assumes "xs \<noteq> []"
  shows "mathMax xs = Some (Max (set xs))"
proof (cases xs)
  case Nil
  with assms show ?thesis by simp
next
  case (Cons a as)
  then show ?thesis using Max.set_eq_fold [of a as] by simp
qed

lemma max_level:
  assumes ne: "ls \<noteq> []" and lv: "set ls \<subseteq> set levels"
  shows "levelNameAt (mathMax (map levelValueOr1 ls)) \<in> set ls \<and>
         (\<forall>l \<in> set ls. levelOrder l \<le> levelOrder (levelNameAt (mathMax (map levelValueOr1 ls))))"
proof -
  let ?vs = "map levelValueOr1 ls"
  have m: "mathMax ?vs = Some (Max (set ?vs))" using ne by (simp add: mathMax_Max)
  have "Max (set ?vs) \<in> set ?vs" using ne by (intro Max_in) simp_all
  then obtain l where l: "l \<in> set ls" "Max (set ?vs) = levelValueOr1 l" by auto
  then have r: "levelNameAt (mathMax ?vs) = l"
    using lv levelNameAt_value [of l] by (auto simp: m)
  have "\<forall>k \<in> set ls. levelOrder k \<le> levelOrder l"
  proof
    fix k assume k: "k \<in> set ls"
    then have "levelValueOr1 k \<le> Max (set ?vs)" by (intro Max_ge) simp_all
    moreover have "k \<in> set levels" "l \<in> set levels" using k l lv by auto
    ultimately show "levelOrder k \<le> levelOrder l"
      using l levelValueOr1_order [of k] levelValueOr1_order [of l] by simp
  qed
  with r l show ?thesis by simp
qed

lemma getCEFRLevelOffline_word:
  "w \<in> set (phraseWords p) \<Longrightarrow> getCEFRLevelOffline w = lookupLevel w"
  using phraseWords_normal [of w p] phraseWords_no_space [of w p]
  by (simp add: getCEFRLevelOffline.simps)

lemma analyzePhrase_level: "analyzePhrase p \<in> set levels"
proof (cases "phraseWords p = []")
  case True
  then show ?thesis by (simp add: levels_def analyzePhrase.simps)
next
  case False
  let ?ls = "map getCEFRLevelOffline (phraseWords p)"
  have sub: "set ?ls \<subseteq> set levels"
    using getCEFRLevelOffline_word [of _ p] lookupLevel_level by auto
  have "levelNameAt (mathMax (map levelValueOr1 ?ls)) \<in> set ?ls"
    using max_level [OF _ sub] False by simp
  with sub have "levelNameAt (mathMax (map levelValueOr1 ?ls)) \<in> set levels" by blast
  with False show ?thesis
    by (simp add: Let_def analyzePhrase.simps)
qed

lemma getCEFRLevelOffline_level: "getCEFRLevelOffline t \<in> set levels"
  using analyzePhrase_level lookupLevel_level
  by (simp add: Let_def getCEFRLevelOffline.simps)

lemma a1Words_no_space: "\<forall>w \<in> set a1Words. CHR '' '' \<notin> set w"
  by (simp add: a1Words_def)
lemma a2Words_no_space: "\<forall>w \<in> set a2Words. CHR '' '' \<notin> set w"
  by (simp add: a2Words_def)
lemma b1Words_no_space: "\<forall>w \<in> set b1Words. CHR '' '' \<notin> set w"
  by (simp add: b1Words_def)
lemma b2Words_no_space: "\<forall>w \<in> set b2Words. CHR '' '' \<notin> set w"
  by (simp add: b2Words_def)
lemma c1Words_no_space: "\<forall>w \<in> set c1Words. CHR '' '' \<notin> set w"
  by (simp add: c1Words_def)
lemma c2Words_no_space: "\<forall>w \<in> set c2Words. CHR '' '' \<notin> set w"
  by (simp add: c2Words_def)

lemma isLowerAZ_letters: "isLowerAZ c \<longleftrightarrow> c \<in> set ''abcdefghijklmnopqrstuvwxyz''"
proof -
  have "c \<in> set ''abcdefghijklmnopqrstuvwxyz''
          \<longleftrightarrow> (of_char c :: nat) \<in> of_char ` set ''abcdefghijklmnopqrstuvwxyz''"
    by (rule inj_image_mem_iff [OF inj_of_char, symmetric])
  also have "\<dots> \<longleftrightarrow> 97 \<le> (of_char c :: nat) \<and> (of_char c :: nat) \<le> 122"
    by simp arith
  finally show ?thesis by (simp add: isLowerAZ_def Let_def)
qed

lemma splitSpaces_leading:
  "\<forall>c \<in> set pre. isSpaceChar c \<Longrightarrow>
     filter (\<lambda>w. length w > 0) (splitSpaces [] (pre @ s)) =
     filter (\<lambda>w. length w > 0) (splitSpaces [] s)"
proof (cases pre)
  case Nil
  then show ?thesis by simp
next
  case (Cons c cs)
  assume a: "\<forall>c \<in> set pre. isSpaceChar c"
  with Cons have "dropWhile isSpaceChar (cs @ s) = dropWhile isSpaceChar s"
    by (simp add: dropWhile_append)
  moreover have "filter (\<lambda>w. length w > 0) (splitSpaces [] (dropWhile isSpaceChar s)) =
      filter (\<lambda>w. length w > 0) (splitSpaces [] s)"
    by (cases s) simp_all
  ultimately show ?thesis using a Cons by simp
qed

lemma splitSpaces_trailing:
  "\<forall>c \<in> set post. isSpaceChar c \<Longrightarrow>
     filter (\<lambda>w. length w > 0) (splitSpaces cur (s @ post)) =
     filter (\<lambda>w. length w > 0) (splitSpaces cur s)"
proof (induction cur s rule: splitSpaces.induct)
  case (1 cur)
  show ?case
  proof (cases post)
    case Nil
    then show ?thesis by simp
  next
    case (Cons a as)
    with 1 have dw: "dropWhile isSpaceChar as = []" by simp
    from 1 Cons show ?thesis by (simp add: dw)
  qed
next
  case (2 cur c cs)
  show ?case
  proof (cases "isSpaceChar c")
    case True
    show ?thesis
    proof (cases "\<forall>x \<in> set cs. isSpaceChar x")
      case all: True
      then have d1: "dropWhile isSpaceChar cs = []" by simp
      from all 2(3) have d2: "dropWhile isSpaceChar (cs @ post) = []" by simp
      from True show ?thesis by (simp add: d1 d2)
    next
      case False
      then obtain x where "x \<in> set cs" "\<not> isSpaceChar x" by blast
      then have d: "dropWhile isSpaceChar (cs @ post) = dropWhile isSpaceChar cs @ post"
        by (rule dropWhile_append1)
      from True 2(1) [OF True 2(3)] show ?thesis by (simp add: d)
    qed
  next
    case False
    then show ?thesis using 2(2) [OF False 2(3)] by simp
  qed
qed

lemma trim_decompose:
  "\<exists>pre post. s = pre @ trim s @ post \<and> (\<forall>c \<in> set pre. isSpaceChar c)
      \<and> (\<forall>c \<in> set post. isSpaceChar c)"
proof -
  let ?d = "dropWhile isSpaceChar s"
  have 1: "s = takeWhile isSpaceChar s @ ?d" by simp
  have 2: "?d = trim s @ rev (takeWhile isSpaceChar (rev ?d))"
    unfolding trim_def by (metis rev_append rev_rev_ident takeWhile_dropWhile_id)
  have "s = takeWhile isSpaceChar s @ trim s @ rev (takeWhile isSpaceChar (rev ?d))"
    using 1 2 by metis
  moreover have "\<forall>c \<in> set (takeWhile isSpaceChar s). isSpaceChar c"
    by (auto dest: set_takeWhileD)
  moreover have "\<forall>c \<in> set (rev (takeWhile isSpaceChar (rev ?d))). isSpaceChar c"
    by (auto dest: set_takeWhileD)
  ultimately show ?thesis by blast
qed

lemma phraseWords_trim: "phraseWords (trim s) = phraseWords s"
proof -
  obtain pre post where d: "s = pre @ trim s @ post"
    and pre: "\<forall>c \<in> set pre. isSpaceChar c" and post: "\<forall>c \<in> set post. isSpaceChar c"
    using trim_decompose by blast
  let ?k = "\<lambda>c. isWordChar c \<or> isSpaceChar c"
  let ?f = "\<lambda>x. filter ?k (toLowerCase x)"
  have fp: "?f pre = toLowerCase pre" "?f post = toLowerCase post"
    using pre post by (auto simp: toLowerCase_def isSpaceChar_toLowerChar filter_id_conv)
  have sp: "\<forall>c \<in> set (toLowerCase pre). isSpaceChar c" "\<forall>c \<in> set (toLowerCase post). isSpaceChar c"
    using pre post by (auto simp: toLowerCase_def isSpaceChar_toLowerChar)
  have "?f s = ?f (pre @ trim s @ post)" using d by simp
  also have "\<dots> = toLowerCase pre @ ?f (trim s) @ toLowerCase post"
    using fp by (simp add: toLowerCase_def)
  finally have "phraseWords s =
      filter (\<lambda>w. length w > 0) (splitSpaces [] (toLowerCase pre @ ?f (trim s) @ toLowerCase post))"
    by (simp add: phraseWords_def)
  also have "\<dots> = filter (\<lambda>w. length w > 0) (splitSpaces [] (?f (trim s) @ toLowerCase post))"
    by (rule splitSpaces_leading [OF sp(1)])
  also have "\<dots> = filter (\<lambda>w. length w > 0) (splitSpaces [] (?f (trim s)))"
    by (rule splitSpaces_trailing [OF sp(2)])
  finally show ?thesis by (simp add: phraseWords_def)
qed

lemma phraseWords_toLowerCase: "phraseWords (toLowerCase s) = phraseWords s"
  by (simp add: phraseWords_def toLowerCase_idem)

lemma phraseWords_normalized: "phraseWords (trim (toLowerCase s)) = phraseWords s"
  by (simp add: phraseWords_trim phraseWords_toLowerCase)

lemma testLowerAZ_letters: "testLowerAZ s = lowercaseLetters s"
  unfolding testLowerAZ_def lowercaseLetters_def list_all_iff isLowerAZ_letters by blast

lemma tier_word_no_space:
  "t \<in> set tiers \<Longrightarrow> w \<in> set (snd t) \<Longrightarrow> \<not> includesChar w (CHR '' '')"
  using a1Words_no_space a2Words_no_space b1Words_no_space b2Words_no_space
    c1Words_no_space c2Words_no_space
  by (auto simp: tiers_def includesChar_def)

lemma levelOrder_values:
  "levelOrder ''A1'' = 0" "levelOrder ''A2'' = 1" "levelOrder ''B1'' = 2"
  "levelOrder ''B2'' = 3" "levelOrder ''C1'' = 4" "levelOrder ''C2'' = 5"
  by (simp_all add: levelOrder_def levels_def)

subsection \<open>The two copies of the local classifier\<close>

lemma words_basic_eq:
  "a1Words_basic = a1Words" "a2Words_basic = a2Words" "b1Words_basic = b1Words"
  "b2Words_basic = b2Words" "c1Words_basic = c1Words" "c2Words_basic = c2Words"
  by (simp_all add: a1Words_basic_def a1Words_def a2Words_basic_def a2Words_def
      b1Words_basic_def b1Words_def b2Words_basic_def b2Words_def
      c1Words_basic_def c1Words_def c2Words_basic_def c2Words_def)

lemma heuristicLevel_basic_eq: "heuristicLevel_basic t = heuristicLevel t"
  by (simp add: heuristicLevel_basic_def heuristicLevel_def)

lemma lookupLevel_basic_eq: "lookupLevel_basic t = lookupLevel t"
  by (simp add: lookupLevel_basic_def lookupLevel_def words_basic_eq heuristicLevel_basic_eq)

lemma levelValueOr1_basic_eq: "levelValueOr1_basic = levelValueOr1"
  by (rule ext) (simp add: levelValueOr1_basic_def levelValueOr1_def levelValues_basic_def
      levelValues_def)

lemma levelNames_basic_eq: "levelNames_basic = levelNames"
  by (simp add: levelNames_basic_def levelNames_def)

lemma levelNameAt_basic_eq: "levelNameAt_basic = levelNameAt"
  by (rule ext) (simp add: levelNameAt_basic_def levelNameAt_def levelNames_basic_eq
      split: option.split)

lemma getBasicCEFRLevel_word:
  "w \<in> set (phraseWords p) \<Longrightarrow> getBasicCEFRLevel w = lookupLevel_basic w"
  using phraseWords_normal [of w p] phraseWords_no_space [of w p]
  by (simp add: getBasicCEFRLevel.simps)

lemma analyzePhrase_basic_eq: "analyzePhrase_basic p = analyzePhrase p"
proof -
  have m: "map getBasicCEFRLevel (phraseWords p) = map getCEFRLevelOffline (phraseWords p)"
    by (rule map_cong [OF refl])
       (simp add: getBasicCEFRLevel_word getCEFRLevelOffline_word lookupLevel_basic_eq)
  show ?thesis
    unfolding analyzePhrase_basic.simps [of p] analyzePhrase.simps [of p] phraseWords_basic_eq
      levelValueOr1_basic_eq levelNameAt_basic_eq Let_def m
    by (rule refl)
qed


lemma empty_not_in_sets:
  "[] \<notin> set a1Words" "[] \<notin> set a2Words" "[] \<notin> set b1Words"
  "[] \<notin> set b2Words" "[] \<notin> set c1Words" "[] \<notin> set c2Words"
  by (simp_all add: a1Words_def a2Words_def b1Words_def b2Words_def c1Words_def c2Words_def)

lemma empty_not_in_sets_basic:
  "[] \<notin> set a1Words_basic" "[] \<notin> set a2Words_basic" "[] \<notin> set b1Words_basic"
  "[] \<notin> set b2Words_basic" "[] \<notin> set c1Words_basic" "[] \<notin> set c2Words_basic"
  by (simp_all add: a1Words_basic_def a2Words_basic_def b1Words_basic_def b2Words_basic_def
      c1Words_basic_def c2Words_basic_def)

subsection \<open>The remote lookup\<close>




lemma getCEFRLevelOffline_trim: "getCEFRLevelOffline (trim s) = getCEFRLevelOffline s"
  by (simp add: getCEFRLevelOffline.simps trim_toLowerCase trim_idem)



lemma no_level_string_unavailable:
  assumes "\<not> levelString (propertyOf (propertyOf (Some r) ''word'') ''level'')"
    and "\<not> levelString (propertyOf (Some r) ''level'')"
  shows "unavailable (Body (Some r))"
  using assms by simp


subsection \<open>Splitting, joining and the lines of a file\<close>

lemma splitChar_not_Nil: "splitChar d cur s \<noteq> []"
  by (induction s arbitrary: cur) auto

lemma splitChar_chars_all:
  "\<forall>w \<in> set (splitChar d cur s). set w \<subseteq> set cur \<union> (set s - {d})"
proof (induction s arbitrary: cur)
  case Nil
  then show ?case by simp
next
  case (Cons c cs)
  show ?case
  proof (cases "c = d")
    case True
    with Cons [of "[]"] show ?thesis by auto
  next
    case False
    with Cons [of "cur @ [c]"] show ?thesis by auto
  qed
qed

lemma splitChar_chars:
  "w \<in> set (splitChar d cur s) \<Longrightarrow> set w \<subseteq> set cur \<union> (set s - {d})"
  using splitChar_chars_all by blast

lemma join_Cons: "xs \<noteq> [] \<Longrightarrow> join (x # xs) d = x @ d # join xs d"
  by (cases xs) simp_all

lemma join_splitChar: "join (splitChar d cur s) d = cur @ s"
  by (induction s arbitrary: cur) (simp_all add: join_Cons splitChar_not_Nil)

lemma splitChar_append:
  "d \<notin> set x \<Longrightarrow> splitChar d cur (x @ r) = splitChar d (cur @ x) r"
  by (induction x arbitrary: cur) auto

lemma splitChar_join:
  "xs \<noteq> [] \<Longrightarrow> \<forall>x \<in> set xs. d \<notin> set x \<Longrightarrow>
     splitChar d cur (join xs d) = (cur @ hd xs) # tl xs"
proof (induction xs arbitrary: cur)
  case Nil
  then show ?case by simp
next
  case (Cons x xs)
  show ?case
  proof (cases xs)
    case Nil
    with Cons.prems show ?thesis
      using splitChar_append [of d x cur "[]"] by simp
  next
    case (Cons y ys)
    then have ne: "xs \<noteq> []" by simp
    have "splitChar d cur (join (x # xs) d) = splitChar d (cur @ x) (d # join xs d)"
      using Cons.prems splitChar_append [of d x cur] by (simp add: join_Cons [OF ne])
    also have "\<dots> = (cur @ x) # splitChar d [] (join xs d)" by simp
    also have "splitChar d [] (join xs d) = hd xs # tl xs"
      using Cons.IH [OF ne, of "[]"] Cons.prems by simp
    finally show ?thesis using ne by simp
  qed
qed

lemma split_join: "xs \<noteq> [] \<Longrightarrow> \<forall>x \<in> set xs. d \<notin> set x \<Longrightarrow> split (join xs d) d = xs"
  using splitChar_join [of xs d "[]"] by (simp add: split_def)

lemma join_split: "join (split s d) d = s"
  by (simp add: split_def join_splitChar)

lemma split_chars: "w \<in> set (split s d) \<Longrightarrow> set w \<subseteq> set s - {d}"
  using splitChar_chars [of w d "[]" s] by (simp add: split_def)

lemma set_join: "set (join xs d) \<subseteq> (\<Union>x \<in> set xs. set x) \<union> {d}"
  by (induction xs d rule: join.induct) auto

lemma stripTerminator_line:
  assumes "LF \<notin> set s"
  shows "stripTerminator s = s"
proof -
  have "\<not> (s \<noteq> [] \<and> last s = LF)"
    using assms by (metis last_in_set)
  then show ?thesis unfolding stripTerminator_def by (simp only: if_False)
qed

lemma processLines_map: "processLines ls acc = acc @ map processLine ls"
  by (induction ls arbitrary: acc) simp_all

lemma trim_Nil_iff: "trim s = [] \<longleftrightarrow> (\<forall>c \<in> set s. isSpaceChar c)"
proof -
  let ?d = "dropWhile isSpaceChar s"
  have "trim s = [] \<longleftrightarrow> (\<forall>c \<in> set ?d. isSpaceChar c)"
    by (simp add: trim_def)
  also have "\<dots> \<longleftrightarrow> ?d = []"
  proof (cases ?d)
    case Nil
    show ?thesis unfolding Nil by simp
  next
    case (Cons x xs)
    then have "\<not> isSpaceChar x" using hd_dropWhile [of isSpaceChar s] by auto
    with Cons show ?thesis by auto
  qed
  also have "\<dots> \<longleftrightarrow> (\<forall>c \<in> set s. isSpaceChar c)" by simp
  finally show ?thesis .
qed

lemma level_chars: "l \<in> set levels \<Longrightarrow> set l \<subseteq> set ''ABC12''"
  by (auto simp: levels_cases)

lemma getCEFRLevelOffline_no_LF: "LF \<notin> set (getCEFRLevelOffline t)"
  using level_chars [OF getCEFRLevelOffline_level [of t]] by (auto simp: LF_def)

lemma getCEFRLevelOffline_no_TAB: "TAB \<notin> set (getCEFRLevelOffline t)"
  using level_chars [OF getCEFRLevelOffline_level [of t]] by (auto simp: TAB_def)

lemma column_in_line:
  "i < length (split line TAB) \<Longrightarrow> set (split line TAB ! i) \<subseteq> set line - {TAB}"
  using split_chars [of "split line TAB ! i" line TAB] by simp

lemma column_not_blank:
  assumes "i < length (split line TAB)" and "trim (split line TAB ! i) \<noteq> []"
  shows "trim line \<noteq> []"
  using assms column_in_line [OF assms(1)] unfolding trim_Nil_iff by blast

text \<open>What the loop body does with a line of the file.\<close>

lemma processLine_pass:
  assumes "LF \<notin> set line"
    and "trim line = [] \<or> startsWith line (CHR ''#'') \<or> length (split line TAB) < 12"
  shows "processLine line = line"
  using assms(2) by (auto simp: processLine_def stripTerminator_line [OF assms(1)] Let_def)

lemma processLine_data:
  assumes lf: "LF \<notin> set line"
    and nc: "\<not> startsWith line (CHR ''#'')"
    and cols: "columns = split line TAB"
    and len: "12 \<le> length columns"
  shows "trim (columns ! 3) \<noteq> [] \<Longrightarrow>
           processLine line =
             join (columns[11 := (if trim (columns ! 11) \<noteq> []
                                  then columns ! 11 @ '' '' @ getCEFRLevelOffline (trim (columns ! 3))
                                  else getCEFRLevelOffline (trim (columns ! 3)))]) TAB"
    and "trim (columns ! 3) = [] \<Longrightarrow> processLine line = line"
proof -
  assume t: "trim (columns ! 3) \<noteq> []"
  have "3 < length (split line TAB)" using len cols by simp
  from column_not_blank [OF this] t cols have "trim line \<noteq> []" by simp
  with nc len cols t show "processLine line =
             join (columns[11 := (if trim (columns ! 11) \<noteq> []
                                  then columns ! 11 @ '' '' @ getCEFRLevelOffline (trim (columns ! 3))
                                  else getCEFRLevelOffline (trim (columns ! 3)))]) TAB"
    by (simp add: processLine_def stripTerminator_line [OF lf] Let_def)
next
  assume t: "trim (columns ! 3) = []"
  show "processLine line = line"
  proof (cases "trim line = []")
    case True
    then show ?thesis using processLine_pass [OF lf] by simp
  next
    case False
    with nc len cols t show ?thesis
      by (simp add: processLine_def stripTerminator_line [OF lf] Let_def join_split)
  qed
qed

lemma processLine_fields:
  assumes lf: "LF \<notin> set line"
    and nc: "\<not> startsWith line (CHR ''#'')"
    and cols: "columns = split line TAB"
    and len: "12 \<le> length columns"
    and t: "trim (columns ! 3) \<noteq> []"
  shows "split (processLine line) TAB =
           columns[11 := (if trim (columns ! 11) \<noteq> []
                          then columns ! 11 @ '' '' @ getCEFRLevelOffline (trim (columns ! 3))
                          else getCEFRLevelOffline (trim (columns ! 3)))]"
proof -
  let ?v = "if trim (columns ! 11) \<noteq> []
            then columns ! 11 @ '' '' @ getCEFRLevelOffline (trim (columns ! 3))
            else getCEFRLevelOffline (trim (columns ! 3))"
  have c: "\<forall>x \<in> set columns. TAB \<notin> set x"
    using split_chars [of _ line TAB] cols by auto
  have "TAB \<notin> set (columns ! 11)" using c len by simp
  then have v: "TAB \<notin> set ?v"
    using getCEFRLevelOffline_no_TAB by (auto simp: TAB_def)
  have "\<forall>x \<in> set (columns[11 := ?v]). TAB \<notin> set x"
    using c v set_update_subset_insert [of columns 11 ?v] by blast
  moreover have "columns[11 := ?v] \<noteq> []" using len by auto
  ultimately show ?thesis
    unfolding processLine_data(1) [OF lf nc cols len t] by (rule split_join [rotated])
qed

lemma processLine_no_LF:
  assumes lf: "LF \<notin> set line"
  shows "LF \<notin> set (processLine line)"
proof (cases "trim line = [] \<or> startsWith line (CHR ''#'') \<or> length (split line TAB) < 12")
  case True
  with processLine_pass [OF lf] lf show ?thesis by simp
next
  case False
  let ?c = "split line TAB"
  from False have nc: "\<not> startsWith line (CHR ''#'')" and len: "12 \<le> length ?c" by auto
  show ?thesis
  proof (cases "trim (?c ! 3) = []")
    case True
    with processLine_data(2) [OF lf nc refl len] lf show ?thesis by simp
  next
    case nb: False
    let ?v = "if trim (?c ! 11) \<noteq> []
              then ?c ! 11 @ '' '' @ getCEFRLevelOffline (trim (?c ! 3))
              else getCEFRLevelOffline (trim (?c ! 3))"
    have c: "\<forall>x \<in> set ?c. LF \<notin> set x"
      using split_chars [of _ line TAB] lf by auto
    then have "LF \<notin> set (?c ! 11)" using len by simp
    then have "LF \<notin> set ?v" using getCEFRLevelOffline_no_LF by (auto simp: LF_def)
    with c have "\<forall>x \<in> set (?c[11 := ?v]). LF \<notin> set x"
      using set_update_subset_insert [of ?c 11 ?v] by blast
    then have "LF \<notin> set (join (?c[11 := ?v]) TAB)"
      using set_join [of "?c[11 := ?v]" TAB] by (auto simp: LF_def TAB_def)
    then show ?thesis
      unfolding processLine_data(1) [OF lf nc refl len nb] .
  qed
qed

lemma annotated_lines:
  "\<exists>out. processTSVFileOffline (Some data) = Some out
     \<and> split out LF = map processLine (split data LF)"
proof -
  let ?ls = "split data LF"
  have lf: "\<forall>l \<in> set ?ls. LF \<notin> set l"
    using split_chars [of _ data LF] by auto
  then have "\<forall>l \<in> set (map processLine ?ls). LF \<notin> set l"
    using processLine_no_LF by auto
  moreover have "map processLine ?ls \<noteq> []"
    by (simp add: split_def splitChar_not_Nil)
  ultimately have "split (join (map processLine ?ls) LF) LF = map processLine ?ls"
    by (rule split_join [rotated])
  then show ?thesis
    by (simp add: processTSVFileOffline_def processLines_map)
qed

lemma annotated_line:
  assumes "i < length (split data LF)"
  shows "LF \<notin> set (split data LF ! i)"
    and "\<exists>out. processTSVFileOffline (Some data) = Some out
           \<and> length (split out LF) = length (split data LF)
           \<and> split out LF ! i = processLine (split data LF ! i)"
proof -
  show "LF \<notin> set (split data LF ! i)"
    using split_chars [of "split data LF ! i" data LF] assms by auto
  from annotated_lines [of data] assms
  show "\<exists>out. processTSVFileOffline (Some data) = Some out
           \<and> length (split out LF) = length (split data LF)
           \<and> split out LF ! i = processLine (split data LF ! i)"
    by auto
qed

section \<open>The claims\<close>

subsection \<open>Phrases\<close>

text \<open>
  C1. The words of a text are what is left after lower-casing, removing every character
  that is neither a word character nor white space, and splitting at runs of white
  space. \<open>analyzePhrase\<close> returns \<open>A1\<close> for a text with no word; for a text with words it
  returns the level of one of them, and no word of the text has a level higher in the
  order A1, A2, B1, B2, C1, C2. Each word is classified on its own by
  \<open>getCEFRLevelOffline\<close>, which for a word takes the single-word path (the word sets, then
  the length rule). \<open>getCEFRLevelOffline\<close> hands a text to \<open>analyzePhrase\<close> when the text,
  lower-cased and trimmed, contains a space, and the result is that of the text itself.
\<close>

theorem phrase_level_is_maximum:
  "(phraseWords text = [] \<longrightarrow> analyzePhrase text = ''A1'')
   \<and> (phraseWords text \<noteq> [] \<longrightarrow>
        (\<exists>w \<in> set (phraseWords text). analyzePhrase text = getCEFRLevelOffline w)
        \<and> (\<forall>w \<in> set (phraseWords text).
              levelOrder (getCEFRLevelOffline w) \<le> levelOrder (analyzePhrase text)))
   \<and> (\<forall>w \<in> set (phraseWords text).
         \<not> includesChar (trim (toLowerCase w)) (CHR '' '') \<and> getCEFRLevelOffline w = lookupLevel w)
   \<and> (includesChar (trim (toLowerCase text)) (CHR '' '') \<longrightarrow>
         getCEFRLevelOffline text = analyzePhrase text)"
proof (intro conjI impI ballI)
  assume "phraseWords text = []"
  then show "analyzePhrase text = ''A1''" by (simp add: analyzePhrase.simps)
next
  assume ne: "phraseWords text \<noteq> []"
  let ?ls = "map getCEFRLevelOffline (phraseWords text)"
  have r: "analyzePhrase text = levelNameAt (mathMax (map levelValueOr1 ?ls))"
    using ne by (simp add: analyzePhrase.simps Let_def)
  have "?ls \<noteq> []" "set ?ls \<subseteq> set levels"
    using ne getCEFRLevelOffline_level by auto
  from max_level [OF this]
  show "\<exists>w \<in> set (phraseWords text). analyzePhrase text = getCEFRLevelOffline w"
    and "\<And>w. w \<in> set (phraseWords text) \<Longrightarrow>
          levelOrder (getCEFRLevelOffline w) \<le> levelOrder (analyzePhrase text)"
    unfolding r by auto
next
  fix w assume w: "w \<in> set (phraseWords text)"
  show "\<not> includesChar (trim (toLowerCase w)) (CHR '' '')"
    using phraseWords_normal [OF w] phraseWords_no_space [OF w] by simp
  show "getCEFRLevelOffline w = lookupLevel w"
    using w by (rule getCEFRLevelOffline_word)
next
  assume "includesChar (trim (toLowerCase text)) (CHR '' '')"
  then have "getCEFRLevelOffline text = analyzePhrase (trim (toLowerCase text))"
    by (simp add: getCEFRLevelOffline.simps)
  also have "\<dots> = analyzePhrase text"
    by (simp add: analyzePhrase.simps phraseWords_normalized)
  finally show "getCEFRLevelOffline text = analyzePhrase text" .
qed

theorem phrase_level_is_maximum_witness:
  "phraseWords ''cat beautiful'' = [''cat'', ''beautiful'']
   \<and> getCEFRLevelOffline ''cat'' = ''A1'' \<and> getCEFRLevelOffline ''beautiful'' = ''B2''
   \<and> analyzePhrase ''cat beautiful'' = ''B2''
   \<and> getCEFRLevelOffline ''cat beautiful'' = ''B2''
   \<and> phraseWords ''! !'' = [] \<and> analyzePhrase ''! !'' = ''A1''
   \<and> getCEFRLevelOffline ''! !'' = ''A1''"
proof -
  have w: "phraseWords ''cat beautiful'' = [''cat'', ''beautiful'']" by code_simp
  have s: "includesChar (trim (toLowerCase ''cat beautiful'')) (CHR '' '')" by code_simp
  have c: "lookupLevel ''cat'' = ''A1''" "lookupLevel ''beautiful'' = ''B2''" by code_simp+
  have e: "phraseWords ''! !'' = []" by code_simp
  have s': "includesChar (trim (toLowerCase ''! !'')) (CHR '' '')" by code_simp
  note t = phrase_level_is_maximum [of "''cat beautiful''", unfolded w, simplified]
  from t have g: "getCEFRLevelOffline ''cat'' = ''A1''" "getCEFRLevelOffline ''beautiful'' = ''B2''"
    unfolding c by blast+
  from t have d: "analyzePhrase ''cat beautiful'' = getCEFRLevelOffline ''cat''
      \<or> analyzePhrase ''cat beautiful'' = getCEFRLevelOffline ''beautiful''"
    and o: "levelOrder (getCEFRLevelOffline ''beautiful'') \<le> levelOrder (analyzePhrase ''cat beautiful'')"
    by blast+
  from d o have a: "analyzePhrase ''cat beautiful'' = ''B2''"
    unfolding g by (auto simp: levelOrder_values)
  from t s a have b: "getCEFRLevelOffline ''cat beautiful'' = ''B2''" by metis
  note t' = phrase_level_is_maximum [of "''! !''", unfolded e]
  from t' s' have "analyzePhrase ''! !'' = ''A1''" "getCEFRLevelOffline ''! !'' = ''A1''"
    by simp_all
  with w g a b e show ?thesis by simp
qed

subsection \<open>Words in the word sets\<close>

text \<open>
  C2. When the text, lower-cased and trimmed, is in the word set of a level and in
  none of the sets tested before it, \<open>getCEFRLevelOffline\<close> returns that level: a word of
  exactly one set gets the level of that set, a word of several sets the lowest of
  their levels, whatever the letter case and the white space around the word.
\<close>

theorem lexicon_first_match:
  assumes i: "i < length tiers"
    and m: "trim (toLowerCase text) \<in> set (snd (tiers ! i))"
    and first: "\<forall>j<i. trim (toLowerCase text) \<notin> set (snd (tiers ! j))"
  shows "getCEFRLevelOffline text = fst (tiers ! i)"
proof -
  let ?n = "trim (toLowerCase text)"
  have "tiers ! i \<in> set tiers" using i by simp
  from tier_word_no_space [OF this m]
  have g: "getCEFRLevelOffline text = lookupLevel ?n"
    by (simp add: getCEFRLevelOffline.simps)
  from i have "i = 0 \<or> i = 1 \<or> i = 2 \<or> i = 3 \<or> i = 4 \<or> i = 5"
    by (auto simp: tiers_def)
  then show ?thesis
  proof (elim disjE)
    assume "i = 0"
    with m show ?thesis unfolding g by (simp add: tiers_def lookupLevel_def)
  next
    assume e: "i = 1"
    with first have "?n \<notin> set (snd (tiers ! 0))" by simp
    with m e show ?thesis unfolding g by (simp add: tiers_def lookupLevel_def)
  next
    assume e: "i = 2"
    with first have "?n \<notin> set (snd (tiers ! 0))" "?n \<notin> set (snd (tiers ! 1))" by simp_all
    with m e show ?thesis unfolding g by (simp add: tiers_def lookupLevel_def)
  next
    assume e: "i = 3"
    with first have "?n \<notin> set (snd (tiers ! 0))" "?n \<notin> set (snd (tiers ! 1))"
      "?n \<notin> set (snd (tiers ! 2))" by simp_all
    with m e show ?thesis unfolding g by (simp add: tiers_def lookupLevel_def)
  next
    assume e: "i = 4"
    with first have "?n \<notin> set (snd (tiers ! 0))" "?n \<notin> set (snd (tiers ! 1))"
      "?n \<notin> set (snd (tiers ! 2))" "?n \<notin> set (snd (tiers ! 3))" by simp_all
    with m e show ?thesis unfolding g by (simp add: tiers_def lookupLevel_def)
  next
    assume e: "i = 5"
    with first have "?n \<notin> set (snd (tiers ! 0))" "?n \<notin> set (snd (tiers ! 1))"
      "?n \<notin> set (snd (tiers ! 2))" "?n \<notin> set (snd (tiers ! 3))"
      "?n \<notin> set (snd (tiers ! 4))" by simp_all
    with m e show ?thesis unfolding g by (simp add: tiers_def lookupLevel_def)
  qed
qed

theorem lexicon_first_match_witness:
  "getCEFRLevelOffline ''  KiLL '' = ''A1'' \<and> getCEFRLevelOffline ''Planet'' = ''B1''"
proof -
  have 1: "(0::nat) < length tiers" "trim (toLowerCase ''  KiLL '') \<in> set (snd (tiers ! 0))"
    "\<forall>j<(0::nat). trim (toLowerCase ''  KiLL '') \<notin> set (snd (tiers ! j))"
    by (simp add: tiers_def, code_simp, simp)
  have 2: "(2::nat) < length tiers" "trim (toLowerCase ''Planet'') \<in> set (snd (tiers ! 2))"
    by (simp add: tiers_def, code_simp)
  have "trim (toLowerCase ''Planet'') \<notin> set (snd (tiers ! 0))"
    "trim (toLowerCase ''Planet'') \<notin> set (snd (tiers ! 1))"
    by code_simp+
  then have 3: "\<forall>j<(2::nat). trim (toLowerCase ''Planet'') \<notin> set (snd (tiers ! j))"
    by (simp add: less_Suc_eq numeral_2_eq_2)
  from lexicon_first_match [OF 1] lexicon_first_match [OF 2 3]
  show ?thesis by (simp add: tiers_def)
qed

subsection \<open>Words in none of the word sets\<close>

text \<open>
  C3. For a text that, lower-cased and trimmed, is a single word (no space) in none of
  the six word sets, \<open>getCEFRLevelOffline\<close> returns \<open>A1\<close> when the word has at most 4
  characters and is made of lowercase Latin letters only (at least one, as the test
  \<open>/^[a-z]+$/\<close> asks), else \<open>A2\<close> up to 6 characters, \<open>B1\<close> up to 8, \<open>B2\<close> up to 10, and
  \<open>C1\<close> beyond; it never returns \<open>C2\<close>; and of two such words made of lowercase letters
  only, the shorter never gets the higher level.
\<close>

theorem heuristic_bands:
  assumes n: "n = trim (toLowerCase text)"
    and word: "\<not> includesChar n (CHR '' '')"
    and unknown: "\<forall>t \<in> set tiers. n \<notin> set (snd t)"
  shows "getCEFRLevelOffline text =
           (if length n \<le> 4 \<and> lowercaseLetters n then ''A1''
            else if length n \<le> 6 then ''A2''
            else if length n \<le> 8 then ''B1''
            else if length n \<le> 10 then ''B2''
            else ''C1'')
         \<and> getCEFRLevelOffline text \<noteq> ''C2''
         \<and> (m = trim (toLowerCase text') \<and> \<not> includesChar m (CHR '' '')
              \<and> (\<forall>t \<in> set tiers. m \<notin> set (snd t))
              \<and> lowercaseLetters n \<and> lowercaseLetters m \<and> length n \<le> length m
            \<longrightarrow> levelOrder (getCEFRLevelOffline text) \<le> levelOrder (getCEFRLevelOffline text'))"
proof -
  have h: "\<And>x y. y = trim (toLowerCase x) \<Longrightarrow> \<not> includesChar y (CHR '' '')
      \<Longrightarrow> \<forall>t \<in> set tiers. y \<notin> set (snd t) \<Longrightarrow> getCEFRLevelOffline x = heuristicLevel y"
    by (simp add: getCEFRLevelOffline.simps lookupLevel_def tiers_def)
  have g: "getCEFRLevelOffline text = heuristicLevel n"
    using n word unknown by (rule h)
  have 1: "getCEFRLevelOffline text =
           (if length n \<le> 4 \<and> lowercaseLetters n then ''A1''
            else if length n \<le> 6 then ''A2''
            else if length n \<le> 8 then ''B1''
            else if length n \<le> 10 then ''B2''
            else ''C1'')"
    unfolding g by (simp add: heuristicLevel_def testLowerAZ_letters)
  have 2: "getCEFRLevelOffline text \<noteq> ''C2''"
    unfolding g by (simp add: heuristicLevel_def)
  have 3: "levelOrder (getCEFRLevelOffline text) \<le> levelOrder (getCEFRLevelOffline text')"
    if "m = trim (toLowerCase text')" "\<not> includesChar m (CHR '' '')"
      "\<forall>t \<in> set tiers. m \<notin> set (snd t)"
      "lowercaseLetters n" "lowercaseLetters m" "length n \<le> length m"
  proof -
    have g': "getCEFRLevelOffline text' = heuristicLevel m"
      using that(1-3) by (rule h)
    show ?thesis
      unfolding g g' using that(4-6)
      by (simp add: heuristicLevel_def testLowerAZ_letters levelOrder_values)
  qed
  from 1 2 3 show ?thesis by blast
qed

theorem heuristic_bands_witness:
  "getCEFRLevelOffline ''Xyzzy '' = ''A2'' \<and> getCEFRLevelOffline ''Xyzzy '' \<noteq> ''C2''
   \<and> getCEFRLevelOffline ''b'' = ''A1'' \<and> getCEFRLevelOffline ''plughs'' = ''A2''
   \<and> getCEFRLevelOffline ''beautiful'' = ''B2'' \<and> getCEFRLevelOffline ''xyzzyplughs'' = ''C1''
   \<and> levelOrder (getCEFRLevelOffline ''Xyzzy '') \<le> levelOrder (getCEFRLevelOffline ''beautiful'')"
proof -
  have n: "''xyzzy'' = trim (toLowerCase ''Xyzzy '')" "\<not> includesChar ''xyzzy'' (CHR '' '')"
    "\<forall>t \<in> set tiers. ''xyzzy'' \<notin> set (snd t)"
    by code_simp+
  have m: "''beautiful'' = trim (toLowerCase ''beautiful'')"
    "\<not> includesChar ''beautiful'' (CHR '' '')"
    "\<forall>t \<in> set tiers. ''beautiful'' \<notin> set (snd t)"
    by code_simp+
  have l: "lowercaseLetters ''xyzzy''" "lowercaseLetters ''beautiful''"
    "length ''xyzzy'' \<le> length ''beautiful''"
    by code_simp+
  have b: "''b'' = trim (toLowerCase ''b'')" "\<not> includesChar ''b'' (CHR '' '')"
    "\<forall>t \<in> set tiers. ''b'' \<notin> set (snd t)" "lowercaseLetters ''b''"
    by code_simp+
  have p: "''plughs'' = trim (toLowerCase ''plughs'')" "\<not> includesChar ''plughs'' (CHR '' '')"
    "\<forall>t \<in> set tiers. ''plughs'' \<notin> set (snd t)"
    by code_simp+
  have x: "''xyzzyplughs'' = trim (toLowerCase ''xyzzyplughs'')"
    "\<not> includesChar ''xyzzyplughs'' (CHR '' '')"
    "\<forall>t \<in> set tiers. ''xyzzyplughs'' \<notin> set (snd t)"
    by code_simp+
  from heuristic_bands [OF n, of "''beautiful''" "''beautiful''"]
    heuristic_bands [OF m, of "''beautiful''" "''beautiful''"]
    heuristic_bands [OF b(1-3), of "''b''" "''b''"]
    heuristic_bands [OF p, of "''b''" "''b''"]
    heuristic_bands [OF x, of "''b''" "''b''"]
    m l b(4)
  show ?thesis by (simp add: levelOrder_values)
qed

subsection \<open>Remote lookup that brings no level\<close>



subsection \<open>Data lines\<close>

text \<open>
  C5 (as amended). For a line of the file that does not begin with \<open>#\<close> and has at least 12
  fields between tabs: when field 3 is not blank, the fields of the output line are
  those of the input line except field 11, which becomes its old contents, a space
  and the level of the trimmed field 3 when the old contents hold a character that is
  not white space, and the level alone otherwise; when field 3 is blank the line is
  unchanged. The level is one of the six, and the line takes the same place in the output.
\<close>

theorem level_appended_to_field_11:
  assumes "i < length (split data LF)"
    and "line = split data LF ! i"
    and "\<not> startsWith line (CHR ''#'')"
    and "columns = split line TAB"
    and "12 \<le> length columns"
  shows "(trim (columns ! 3) \<noteq> [] \<longrightarrow>
            split (processLine line) TAB =
              columns[11 := (if trim (columns ! 11) \<noteq> []
                             then columns ! 11 @ '' '' @ getCEFRLevelOffline (trim (columns ! 3))
                             else getCEFRLevelOffline (trim (columns ! 3)))])
         \<and> (trim (columns ! 3) = [] \<longrightarrow> processLine line = line)
         \<and> getCEFRLevelOffline (trim (columns ! 3)) \<in> set levels
         \<and> (\<exists>out. processTSVFileOffline (Some data) = Some out
               \<and> length (split out LF) = length (split data LF)
               \<and> split out LF ! i = processLine line)"
proof -
  have lf: "LF \<notin> set line" using assms(1,2) annotated_line(1) by simp
  note f = processLine_fields [OF lf assms(3,4,5)]
  note e = processLine_data(2) [OF lf assms(3,4,5)]
  from annotated_line(2) [OF assms(1)] f e getCEFRLevelOffline_level
  show ?thesis unfolding assms(2) [symmetric] by blast
qed

theorem level_appended_to_field_11_witness:
  "split (processLine (fields12 ''Cat '' ''LEP'')) TAB
     = [''deck'', ''id'', ''uid'', ''Cat '', ''noun'', '''', ''ipa'', '''', ''meaning'', ''one'',
        ''two'', ''LEP A1'']
   \<and> split (processLine (fields12 ''cat beautiful'' '''')) TAB
     = [''deck'', ''id'', ''uid'', ''cat beautiful'', ''noun'', '''', ''ipa'', '''', ''meaning'',
        ''one'', ''two'', ''B2'']
   \<and> processLine (fields12 ''  '' ''LEP'') = fields12 ''  '' ''LEP''"
proof -
  have s: "split (fields12 ''Cat '' ''LEP'') LF = [fields12 ''Cat '' ''LEP'']"
    "split (fields12 ''cat beautiful'' '''') LF = [fields12 ''cat beautiful'' '''']"
    "split (fields12 ''  '' ''LEP'') LF = [fields12 ''  '' ''LEP'']"
    by code_simp+
  have n: "\<not> startsWith (fields12 ''Cat '' ''LEP'') (CHR ''#'')"
    "\<not> startsWith (fields12 ''cat beautiful'' '''') (CHR ''#'')"
    "\<not> startsWith (fields12 ''  '' ''LEP'') (CHR ''#'')"
    by code_simp+
  have c: "split (fields12 ''Cat '' ''LEP'') TAB
      = [''deck'', ''id'', ''uid'', ''Cat '', ''noun'', '''', ''ipa'', '''', ''meaning'', ''one'',
         ''two'', ''LEP'']"
    "split (fields12 ''cat beautiful'' '''') TAB
      = [''deck'', ''id'', ''uid'', ''cat beautiful'', ''noun'', '''', ''ipa'', '''', ''meaning'',
         ''one'', ''two'', '''']"
    "split (fields12 ''  '' ''LEP'') TAB
      = [''deck'', ''id'', ''uid'', ''  '', ''noun'', '''', ''ipa'', '''', ''meaning'', ''one'',
         ''two'', ''LEP'']"
    by code_simp+
  have t: "trim ''Cat '' = ''Cat''" "trim ''cat beautiful'' = ''cat beautiful''" "trim ''  '' = []"
    "trim ''LEP'' = ''LEP''" "trim [] = []"
    by code_simp+
  have g: "getCEFRLevelOffline ''Cat'' = ''A1''" "getCEFRLevelOffline ''cat beautiful'' = ''B2''"
    by code_simp+
  have 1: "split (processLine (fields12 ''Cat '' ''LEP'')) TAB
     = [''deck'', ''id'', ''uid'', ''Cat '', ''noun'', '''', ''ipa'', '''', ''meaning'', ''one'',
        ''two'', ''LEP A1'']"
    using level_appended_to_field_11 [of 0 "fields12 ''Cat '' ''LEP''" "fields12 ''Cat '' ''LEP''"
        "[''deck'', ''id'', ''uid'', ''Cat '', ''noun'', '''', ''ipa'', '''', ''meaning'', ''one'',
         ''two'', ''LEP'']"] n(1)
    by (simp add: s t g c)
  have 2: "split (processLine (fields12 ''cat beautiful'' '''')) TAB
     = [''deck'', ''id'', ''uid'', ''cat beautiful'', ''noun'', '''', ''ipa'', '''', ''meaning'',
        ''one'', ''two'', ''B2'']"
    using level_appended_to_field_11 [of 0 "fields12 ''cat beautiful'' ''''" "fields12 ''cat beautiful'' ''''"
        "[''deck'', ''id'', ''uid'', ''cat beautiful'', ''noun'', '''', ''ipa'', '''', ''meaning'', ''one'',
         ''two'', '''']"] n(2)
    by (simp add: s t g c)
  have 3: "processLine (fields12 ''  '' ''LEP'') = fields12 ''  '' ''LEP''"
    using level_appended_to_field_11 [of 0 "fields12 ''  '' ''LEP''" "fields12 ''  '' ''LEP''"
        "[''deck'', ''id'', ''uid'', ''  '', ''noun'', '''', ''ipa'', '''', ''meaning'', ''one'',
         ''two'', ''LEP'']"] n(3)
    by (simp add: s t c)
  from 1 2 3 show ?thesis by blast
qed

text \<open>
  C5 as stated, with "if the old contents are non-empty", fails on a field 11 that holds
  a single space: the field is not empty, yet it becomes \<open>A1\<close> and not the old contents,
  a space and \<open>A1\<close>.
\<close>

theorem whitespace_field_11_counterexample:
  "\<not> startsWith (fields12 ''cat'' '' '') (CHR ''#'')
   \<and> 12 \<le> length (split (fields12 ''cat'' '' '') TAB)
   \<and> trim (split (fields12 ''cat'' '' '') TAB ! 3) \<noteq> []
   \<and> split (fields12 ''cat'' '' '') TAB ! 11 \<noteq> []
   \<and> getCEFRLevelOffline (trim (split (fields12 ''cat'' '' '') TAB ! 3)) = ''A1''
   \<and> split (processLine (fields12 ''cat'' '' '')) TAB ! 11 = ''A1''
   \<and> split (processLine (fields12 ''cat'' '' '')) TAB ! 11
       \<noteq> split (fields12 ''cat'' '' '') TAB ! 11 @ '' ''
           @ getCEFRLevelOffline (trim (split (fields12 ''cat'' '' '') TAB ! 3))"
  by code_simp

subsection \<open>Lines passed through\<close>

text \<open>
  C6. A line of the file that is empty or white space only, or begins with \<open>#\<close>, or
  has fewer than 12 fields between tabs, is pushed unchanged; the output has as many
  lines as the input and the same line at that place; processing a file that was read
  always ends with a text to write.
\<close>

theorem passthrough_lines_unchanged:
  assumes "i < length (split data LF)"
    and "line = split data LF ! i"
    and "trim line = [] \<or> startsWith line (CHR ''#'') \<or> length (split line TAB) < 12"
  shows "processLine line = line
         \<and> (\<exists>out. processTSVFileOffline (Some data) = Some out
               \<and> length (split out LF) = length (split data LF)
               \<and> split out LF ! i = line)"
proof -
  have lf: "LF \<notin> set line" using assms(1,2) annotated_line(1) by simp
  have p: "processLine line = line" using lf assms(3) by (rule processLine_pass)
  from annotated_line(2) [OF assms(1)] show ?thesis
    unfolding assms(2) [symmetric] p by simp
qed

theorem passthrough_lines_unchanged_witness:
  "processLine (''#deck'' @ [TAB] @ ''x'') = ''#deck'' @ [TAB] @ ''x''
   \<and> processLine [] = []
   \<and> processLine ('' '' @ [TAB] @ '' '') = '' '' @ [TAB] @ '' ''
   \<and> processLine (''a'' @ [TAB] @ ''b'' @ [TAB] @ ''c'' @ [TAB] @ ''cat'' @ [TAB] @ ''e'')
        = ''a'' @ [TAB] @ ''b'' @ [TAB] @ ''c'' @ [TAB] @ ''cat'' @ [TAB] @ ''e''"
proof -
  let ?l0 = "''#deck'' @ [TAB] @ ''x''"
  let ?l2 = "'' '' @ [TAB] @ '' ''"
  let ?l3 = "''a'' @ [TAB] @ ''b'' @ [TAB] @ ''c'' @ [TAB] @ ''cat'' @ [TAB] @ ''e''"
  let ?data = "?l0 @ [LF] @ [LF] @ ?l2 @ [LF] @ ?l3"
  have s: "split ?data LF = [?l0, [], ?l2, ?l3]" by code_simp
  have c: "startsWith ?l0 (CHR ''#'')" "trim [] = []" "trim ?l2 = []"
    "length (split ?l3 TAB) < 12" by code_simp+
  have "processLine ?l0 = ?l0"
    using passthrough_lines_unchanged [of 0 ?data ?l0] c unfolding s by simp
  moreover have "processLine [] = []"
    using passthrough_lines_unchanged [of 1 ?data "[]"] c unfolding s by simp
  moreover have "processLine ?l2 = ?l2"
    using passthrough_lines_unchanged [of 2 ?data ?l2] c unfolding s by simp
  moreover have "processLine ?l3 = ?l3"
    using passthrough_lines_unchanged [of 3 ?data ?l3] c unfolding s by simp
  ultimately show ?thesis by blast
qed

subsection \<open>Line ends\<close>

text \<open>
  C7. The replacement of line 200 removes a line feed at the end of a string together
  with a carriage return before it, but the lines come from splitting the file at line
  feeds and hold none: the carriage return of a CRLF line end stays at the end of its
  line. For a CRLF line of 12 fields the level lands after the carriage return of
  field 11, and a field 11 that holds only the carriage return is overwritten.
\<close>

theorem crlf_carriage_return_kept:
  "stripTerminator (''x'' @ [CR, LF]) = ''x''
   \<and> split (fields12 ''cat'' ''LEP'' @ [CR, LF]) LF = [fields12 ''cat'' ''LEP'' @ [CR], []]
   \<and> stripTerminator (fields12 ''cat'' ''LEP'' @ [CR]) = fields12 ''cat'' ''LEP'' @ [CR]
   \<and> processTSVFileOffline (Some (fields12 ''cat'' ''LEP'' @ [CR, LF]))
       = Some (fields12 ''cat'' (''LEP'' @ [CR] @ '' A1'') @ [LF])
   \<and> processTSVFileOffline (Some (fields12 ''cat'' '''' @ [CR, LF]))
       = Some (fields12 ''cat'' ''A1'' @ [LF])"
  by code_simp

subsection \<open>The example phrase\<close>

text \<open>
  C8. For a line of the file that does not begin with \<open>#\<close>, has at least 12 fields, holds
  \<open>This is a beautiful day\<close> in field 3 and nothing in field 11, the output line has
  \<open>B2\<close> in field 11 and the other fields unchanged: the words are this, is, a,
  beautiful, day; \<open>beautiful\<close> is in no word set and has 9 characters, so the length rule
  gives \<open>B2\<close>; every other word is \<open>A1\<close>.
\<close>

theorem beautiful_day_is_B2:
  assumes "i < length (split data LF)"
    and "line = split data LF ! i"
    and "\<not> startsWith line (CHR ''#'')"
    and "columns = split line TAB"
    and "12 \<le> length columns"
    and "columns ! 3 = ''This is a beautiful day''"
    and "columns ! 11 = []"
  shows "split (processLine line) TAB = columns[11 := ''B2'']
         \<and> phraseWords (columns ! 3) = [''this'', ''is'', ''a'', ''beautiful'', ''day'']
         \<and> map getCEFRLevelOffline [''this'', ''is'', ''a'', ''beautiful'', ''day'']
              = [''A1'', ''A1'', ''A1'', ''B2'', ''A1'']
         \<and> (\<forall>t \<in> set tiers. ''beautiful'' \<notin> set (snd t))
         \<and> length ''beautiful'' = 9
         \<and> heuristicLevel ''beautiful'' = ''B2''
         \<and> (\<exists>out. processTSVFileOffline (Some data) = Some out
               \<and> split (split out LF ! i) TAB = columns[11 := ''B2''])"
proof -
  have lf: "LF \<notin> set line" using assms(1,2) annotated_line(1) by simp
  have t: "trim ''This is a beautiful day'' = ''This is a beautiful day''" by code_simp
  have g: "getCEFRLevelOffline ''This is a beautiful day'' = ''B2''" by code_simp
  have e: "trim [] = []" by code_simp
  have f: "split (processLine line) TAB = columns[11 := ''B2'']"
    using processLine_fields [OF lf assms(3,4,5)] by (simp add: assms(6,7) t g e)
  have w: "phraseWords ''This is a beautiful day'' = [''this'', ''is'', ''a'', ''beautiful'', ''day'']"
    by code_simp
  have l: "map getCEFRLevelOffline [''this'', ''is'', ''a'', ''beautiful'', ''day'']
              = [''A1'', ''A1'', ''A1'', ''B2'', ''A1'']"
    by code_simp
  have u: "\<forall>t \<in> set tiers. ''beautiful'' \<notin> set (snd t)" by code_simp
  have h: "heuristicLevel ''beautiful'' = ''B2''" by code_simp
  from annotated_line(2) [OF assms(1)]
  have "\<exists>out. processTSVFileOffline (Some data) = Some out
               \<and> split (split out LF ! i) TAB = columns[11 := ''B2'']"
    unfolding assms(2) [symmetric] using f by auto
  with f w l u h show ?thesis by (simp add: assms(6))
qed

theorem beautiful_day_is_B2_witness:
  "split (processLine (fields12 ''This is a beautiful day'' '''')) TAB
     = [''deck'', ''id'', ''uid'', ''This is a beautiful day'', ''noun'', '''', ''ipa'', '''',
        ''meaning'', ''one'', ''two'', ''B2'']"
proof -
  let ?l = "fields12 ''This is a beautiful day'' ''''"
  let ?c = "[''deck'', ''id'', ''uid'', ''This is a beautiful day'', ''noun'', '''', ''ipa'', '''',
        ''meaning'', ''one'', ''two'', '''']"
  have s: "split ?l LF = [?l]" by code_simp
  have n: "\<not> startsWith ?l (CHR ''#'')" by code_simp
  have c: "split ?l TAB = ?c" by code_simp
  show ?thesis
    using beautiful_day_is_B2 [of 0 ?l ?l ?c] n by (simp add: s c)
qed

subsection \<open>The duplicated local classifier\<close>

text \<open>
  C9. The local classifier of add_cefr_levels.js and that of add_cefr_levels_offline.js
  are the same function: the six word sets are equal, the length rule and the words of
  a phrase are the same, and \<open>getBasicCEFRLevel\<close> and its \<open>analyzePhrase\<close> return for every
  text what \<open>getCEFRLevelOffline\<close> and its \<open>analyzePhrase\<close> return.
\<close>

theorem local_classifiers_agree:
  "a1Words_basic = a1Words \<and> a2Words_basic = a2Words \<and> b1Words_basic = b1Words
   \<and> b2Words_basic = b2Words \<and> c1Words_basic = c1Words \<and> c2Words_basic = c2Words
   \<and> heuristicLevel_basic text = heuristicLevel text
   \<and> phraseWords_basic text = phraseWords text
   \<and> analyzePhrase_basic text = analyzePhrase text
   \<and> getBasicCEFRLevel text = getCEFRLevelOffline text"
proof -
  have "analyzePhrase_basic (trim (toLowerCase text)) = analyzePhrase (trim (toLowerCase text))"
    by (rule analyzePhrase_basic_eq)
  moreover have "lookupLevel_basic (trim (toLowerCase text)) = lookupLevel (trim (toLowerCase text))"
    by (rule lookupLevel_basic_eq)
  ultimately have "getBasicCEFRLevel text = getCEFRLevelOffline text"
    by (simp add: getBasicCEFRLevel.simps getCEFRLevelOffline.simps Let_def)
  then show ?thesis
    by (simp add: words_basic_eq heuristicLevel_basic_eq phraseWords_basic_eq
        analyzePhrase_basic_eq)
qed

subsection \<open>The empty text\<close>

text \<open>
  C10. For a text that is empty after lower-casing and trimming (the empty string, or
  white space only), \<open>getCEFRLevelOffline\<close> and \<open>getBasicCEFRLevel\<close> return \<open>A2\<close>: the text
  holds no space, is in no word set, fails the test for lowercase letters, and has
  length at most 6.
\<close>

theorem empty_text_is_A2:
  assumes "trim (toLowerCase text) = []"
  shows "getCEFRLevelOffline text = ''A2'' \<and> getBasicCEFRLevel text = ''A2''"
proof
  show "getCEFRLevelOffline text = ''A2''"
    using assms
    by (simp add: getCEFRLevelOffline.simps includesChar_def lookupLevel_def empty_not_in_sets
        heuristicLevel_def testLowerAZ_def)
  show "getBasicCEFRLevel text = ''A2''"
    using assms
    by (simp add: getBasicCEFRLevel.simps includesChar_def lookupLevel_basic_def
        empty_not_in_sets_basic heuristicLevel_basic_def testLowerAZ_def)
qed

theorem empty_text_is_A2_witness:
  "trim (toLowerCase '''') = [] \<and> getCEFRLevelOffline '''' = ''A2''
   \<and> getBasicCEFRLevel '''' = ''A2''
   \<and> trim (toLowerCase ('' '' @ [TAB] @ '' '')) = []
   \<and> getCEFRLevelOffline ('' '' @ [TAB] @ '' '') = ''A2''
   \<and> getBasicCEFRLevel ('' '' @ [TAB] @ '' '') = ''A2''"
proof -
  have 1: "trim (toLowerCase '''') = []" by code_simp
  have 2: "trim (toLowerCase ('' '' @ [TAB] @ '' '')) = []" by code_simp
  from empty_text_is_A2 [OF 1] empty_text_is_A2 [OF 2] 1 2 show ?thesis by simp
qed

end
